theory Spec2Isabelle
  imports Complex_Main "HOL-Library.Sublist"
begin

section \<open>Data model (lib/types.ts)\<close>

text \<open>
  JavaScript numbers are modelled as \<^typ>\<open>real\<close> where they are readings and levels
  (the arithmetic of the reduction is addition and subtraction only) and as \<^typ>\<open>int\<close>
  where they are chainage distances. The source computes with doubles: the chainage parser of
  the model rounds as the doubles do (\<open>toDouble\<close> below), and the station loop and the
  formatter are exact integer arithmetic, which is what the doubles compute as long as the
  distances stay within \<open>MAX_SAFE_INTEGER\<close>. \<open>NaN\<close>, infinities and the rounding of
  readings and levels are outside the model.
  An optional field \<open>f?: T\<close> is a \<^typ>\<open>'a option\<close>, \<open>None\<close> standing for
  \<open>undefined\<close> (and \<open>null\<close>). Two field names are suffixed: \<open>id\<close> is
  \<open>row_id\<close> and \<open>is\<close> is \<open>row_is\<close>; the fields of \<open>ChainagePoint\<close> and of
  \<open>Benchmark\<close> that share a name with a field of \<open>Row\<close> carry the suffix \<open>_pt\<close> and
  \<open>_bm\<close>.
\<close>

datatype ChainageType = CL | RD | LHS | RHS

record ChainagePoint =
  chainage_pt :: string
  offset :: real
  displayName :: string
  chainageType_pt :: "ChainageType option"

record Row =
  row_id :: string
  chainage :: string
  chainageType :: "ChainageType option"
  bs :: "real option"
  row_is :: "real option"
  fs :: "real option"
  hoc :: "real option"
  rl :: "real option"
  d :: "real option"
  diff :: "real option"
  isCP :: "bool option"
  cpLabel :: "string option"
  cpRL :: "real option"
  cpHOC :: "real option"
  isClosingBM :: "bool option"
  closingBMName :: "string option"
  closingBMValue :: "real option"

record Benchmark =
  name_bm :: string
  rl_bm :: real

text \<open>The object literal \<open>{ id, chainage, chainageType }\<close>: every other field unset.\<close>

definition blankRow :: "string \<Rightarrow> string \<Rightarrow> ChainageType option \<Rightarrow> Row" where
  "blankRow i c t =
     \<lparr>row_id = i, chainage = c, chainageType = t, bs = None, row_is = None, fs = None,
      hoc = None, rl = None, d = None, diff = None, isCP = None, cpLabel = None, cpRL = None,
      cpHOC = None, isClosingBM = None, closingBMName = None, closingBMValue = None\<rparr>"

text \<open>Truthiness of an optional boolean flag, as in \<open>if (row.isCP)\<close>.\<close>

definition truthy :: "bool option \<Rightarrow> bool" where
  "truthy b = (b = Some True)"

section \<open>Strings of the JavaScript runtime\<close>

definition digit_char :: "nat \<Rightarrow> char" where
  "digit_char n = ''0123456789'' ! n"

text \<open>\<open>String(n)\<close> for a non-negative integer: its decimal digits.\<close>

fun String_nat :: "nat \<Rightarrow> string" where
  "String_nat n = (if n < 10 then [digit_char n] else String_nat (n div 10) @ [digit_char (n mod 10)])"

declare String_nat.simps [simp del]

definition String_int :: "int \<Rightarrow> string" where
  "String_int i = (if i < 0 then CHR ''-'' # String_nat (nat (- i)) else String_nat (nat i))"

text \<open>\<open>s.padStart(n, c)\<close> with a one-character filler.\<close>

definition padStart :: "nat \<Rightarrow> char \<Rightarrow> string \<Rightarrow> string" where
  "padStart n c s = replicate (n - length s) c @ s"

text \<open>\<open>s.includes(t)\<close>: \<open>t\<close> occurs in \<open>s\<close> as a contiguous block.\<close>

fun includes_str :: "string \<Rightarrow> string \<Rightarrow> bool" where
  "includes_str [] t = (t = [])"
| "includes_str (x # xs) t = (prefix t (x # xs) \<or> includes_str xs t)"

section \<open>Row reduction engine (lib/calculations.ts)\<close>

text \<open>\<open>calculateHOC\<close> is exported by the module and called nowhere; \<open>processRows\<close>
  computes the height of collimation itself.\<close>

definition calculateHOC :: "Row \<Rightarrow> real option \<Rightarrow> Benchmark option \<Rightarrow> real option" where
  "calculateHOC row previousHOC benchmark =
     (case bs row of
        None \<Rightarrow> None
      | Some b \<Rightarrow>
          if b = 0 then None
          else (case previousHOC of
                  None \<Rightarrow> (case benchmark of None \<Rightarrow> None | Some bm \<Rightarrow> Some (rl_bm bm + b))
                | Some p \<Rightarrow> Some (p + b)))"

definition calculateRL :: "Row \<Rightarrow> real option \<Rightarrow> real option" where
  "calculateRL row hocv =
     (case hocv of
        None \<Rightarrow> None
      | Some h \<Rightarrow>
          if h = 0 then None
          else (case row_is row of
                  Some i \<Rightarrow> Some (h - i)
                | None \<Rightarrow> (case fs row of Some f \<Rightarrow> Some (h - f) | None \<Rightarrow> None)))"

definition calculateDiff :: "Row \<Rightarrow> real option" where
  "calculateDiff row =
     (case d row of
        None \<Rightarrow> None
      | Some dv \<Rightarrow> (case rl row of None \<Rightarrow> None | Some r \<Rightarrow> Some (dv - r)))"

text \<open>
  The body of the \<open>rows.map\<close> callback of \<open>processRows\<close>, one definition per kind of
  row. The two variables the callback closes over, \<open>currentHOC\<close> and \<open>currentBM\<close>, are
  passed in and returned.
\<close>

type_synonym fold_state = "real option \<times> real option"

definition closingRow :: "nat \<Rightarrow> real option \<Rightarrow> Row \<Rightarrow> Row" where
  "closingRow index currentHOC row =
     (case currentHOC of
        None \<Rightarrow> row
      | Some h \<Rightarrow>
          if 0 < index then
            (case fs row of
               None \<Rightarrow> row
             | Some f \<Rightarrow>
                 (case closingBMValue row of
                    None \<Rightarrow> row\<lparr>rl := Some (h - f)\<rparr>
                  | Some c \<Rightarrow>
                      row\<lparr>rl := Some (h - f), d := Some c,
                          diff := Some (c - (if h - f = 0 then 0 else h - f))\<rparr>))
          else row)"

definition cpRow :: "Row \<Rightarrow> Row" where
  "cpRow row = (case cpRL row of None \<Rightarrow> row | Some c \<Rightarrow> row\<lparr>rl := Some c\<rparr>)"

definition cpState :: "fold_state \<Rightarrow> Row \<Rightarrow> fold_state" where
  "cpState s row =
     (case s of (currentHOC, currentBM) \<Rightarrow>
        ((case cpHOC row of None \<Rightarrow> currentHOC | Some h \<Rightarrow> Some h),
         (case cpRL row of None \<Rightarrow> currentBM | Some c \<Rightarrow> Some c)))"

definition ordinaryHOC :: "fold_state \<Rightarrow> Row \<Rightarrow> Row \<times> fold_state" where
  "ordinaryHOC s row =
     (case s of (currentHOC, currentBM) \<Rightarrow>
        (case bs row of
           Some b \<Rightarrow>
             (case currentBM of
                Some m \<Rightarrow> (row\<lparr>hoc := Some (m + b)\<rparr>, (Some (m + b), currentBM))
              | None \<Rightarrow>
                  (case currentHOC of
                     Some h \<Rightarrow> (row\<lparr>hoc := Some h\<rparr>, s)
                   | None \<Rightarrow> (row, s)))
         | None \<Rightarrow>
             (case currentHOC of
                Some h \<Rightarrow> (row\<lparr>hoc := Some h\<rparr>, s)
              | None \<Rightarrow> (row, s))))"

definition ordinaryRL :: "Row \<Rightarrow> Row" where
  "ordinaryRL newRow =
     (case hoc newRow of
        None \<Rightarrow> newRow
      | Some h \<Rightarrow>
          (case calculateRL newRow (Some h) of
             None \<Rightarrow> newRow
           | Some r \<Rightarrow> newRow\<lparr>rl := Some r\<rparr>))"

definition ordinaryDiff :: "Row \<Rightarrow> Row" where
  "ordinaryDiff newRow =
     (case rl newRow of
        None \<Rightarrow> newRow
      | Some r \<Rightarrow>
          (case calculateDiff newRow of
             None \<Rightarrow> newRow
           | Some x \<Rightarrow> newRow\<lparr>diff := Some x\<rparr>))"

definition processRow :: "nat \<Rightarrow> fold_state \<Rightarrow> Row \<Rightarrow> Row \<times> fold_state" where
  "processRow index s row =
     (if truthy (isClosingBM row) then (closingRow index (fst s) row, s)
      else if truthy (isCP row) then (cpRow row, cpState s row)
      else (case ordinaryHOC s row of
              (newRow, s') \<Rightarrow> (ordinaryDiff (ordinaryRL newRow), s')))"

fun processRows_map :: "nat \<Rightarrow> fold_state \<Rightarrow> Row list \<Rightarrow> Row list" where
  "processRows_map index s [] = []"
| "processRows_map index s (row # rows) =
     fst (processRow index s row) # processRows_map (Suc index) (snd (processRow index s row)) rows"

text \<open>The values of \<open>currentHOC\<close> and \<open>currentBM\<close> once the callback has run over a
  block of rows.\<close>

fun processRows_state :: "nat \<Rightarrow> fold_state \<Rightarrow> Row list \<Rightarrow> fold_state" where
  "processRows_state index s [] = s"
| "processRows_state index s (row # rows) =
     processRows_state (Suc index) (snd (processRow index s row)) rows"

definition initialState :: "Benchmark option \<Rightarrow> fold_state" where
  "initialState benchmark = (None, map_option rl_bm benchmark)"

definition processRows :: "Row list \<Rightarrow> Benchmark option \<Rightarrow> Row list" where
  "processRows rows benchmark = processRows_map 0 (initialState benchmark) rows"

section \<open>Change-point editor (lib/calculations.ts)\<close>

text \<open>
  \<open>Date.now()\<close> is the parameter \<open>now\<close>. An index beyond the end of the array reads
  \<open>undefined\<close> in the source, which both functions answer by returning their input.
\<close>

definition defaultCPLabel :: "Row list \<Rightarrow> string" where
  "defaultCPLabel rows =
     ''CP'' @ padStart 2 (CHR ''0'') (String_nat (length (filter (\<lambda>r. truthy (isCP r)) rows) + 1))"

definition addChangePoint ::
  "nat \<Rightarrow> Row list \<Rightarrow> nat \<Rightarrow> real \<Rightarrow> string option \<Rightarrow> Benchmark option \<Rightarrow> Row list" where
  "addChangePoint now rows fsRowIndex newBS label benchmark =
     (let processedRows = processRows rows benchmark in
      if length processedRows \<le> fsRowIndex then rows
      else
        (case fs (processedRows ! fsRowIndex) of
           None \<Rightarrow> rows
         | Some fsv \<Rightarrow>
             (case hoc (processedRows ! fsRowIndex) of
                None \<Rightarrow> rows
              | Some oldHOC \<Rightarrow>
                  if oldHOC = 0 then rows
                  else
                    (let originalRow = rows ! fsRowIndex;
                         cpRLv = oldHOC - fsv;
                         newHOC = oldHOC - fsv + newBS;
                         cpLabelv = (case label of
                                       None \<Rightarrow> defaultCPLabel rows
                                     | Some l \<Rightarrow> if l = [] then defaultCPLabel rows else l);
                         updatedFsRow = originalRow\<lparr>bs := Some newBS, chainage := []\<rparr>;
                         pointRow = originalRow
                           \<lparr>row_id := ''row-'' @ String_nat now @ ''-pushed'',
                            bs := Some newBS, fs := None, row_is := None,
                            hoc := None, rl := None, diff := None\<rparr>;
                         updatedFsRowWithCP = updatedFsRow
                           \<lparr>isCP := Some True, cpLabel := Some cpLabelv, cpRL := Some cpRLv,
                            cpHOC := Some newHOC, chainage := cpLabelv\<rparr>;
                         newRows = rows[fsRowIndex := updatedFsRowWithCP]
                     in take (fsRowIndex + 1) newRows @ pointRow # drop (fsRowIndex + 1) newRows))))"

definition restoreFsRow :: "Row \<Rightarrow> string \<Rightarrow> Row" where
  "restoreFsRow cpRowv label =
     cpRowv\<lparr>bs := None, isCP := Some False, cpLabel := None, cpRL := None, cpHOC := None,
            chainage := label\<rparr>"

definition deleteChangePoint :: "Row list \<Rightarrow> nat \<Rightarrow> Row list" where
  "deleteChangePoint rows cpRowIndex =
     (if length rows \<le> cpRowIndex then rows
      else if \<not> truthy (isCP (rows ! cpRowIndex)) then rows
      else
        (let pushedPointRowIndex = cpRowIndex + 1 in
         if length rows \<le> pushedPointRowIndex then rows
         else if \<not> includes_str (row_id (rows ! pushedPointRowIndex)) ''-pushed'' then
           rows[cpRowIndex := restoreFsRow (rows ! cpRowIndex) []]
         else
           (let newRows = rows[cpRowIndex :=
                  restoreFsRow (rows ! cpRowIndex)
                    (if chainage (rows ! pushedPointRowIndex) = [] then []
                     else chainage (rows ! pushedPointRowIndex))]
            in take pushedPointRowIndex newRows @ drop (pushedPointRowIndex + 1) newRows)))"


section \<open>Chainage generator (lib/chainage.ts)\<close>

text \<open>
  Strings are byte strings: the functions below treat the ASCII range as JavaScript does and
  leave every other character alone. \<open>parseInt\<close> returns \<open>None\<close> for \<open>NaN\<close>.
\<close>

definition isWhiteSpace :: "char \<Rightarrow> bool" where
  "isWhiteSpace c = (c = CHR '' '' \<or> (9 \<le> (of_char c :: nat) \<and> (of_char c :: nat) \<le> 13))"

definition trim :: "string \<Rightarrow> string" where
  "trim s = rev (dropWhile isWhiteSpace (rev (dropWhile isWhiteSpace s)))"

definition toUpperCase :: "string \<Rightarrow> string" where
  "toUpperCase s =
     map (\<lambda>c. if 97 \<le> (of_char c :: nat) \<and> (of_char c :: nat) \<le> 122
              then char_of ((of_char c :: nat) - 32) else c) s"

text \<open>\<open>s.split(sep)\<close> with a one-character separator.\<close>

fun split_str :: "char \<Rightarrow> string \<Rightarrow> string list" where
  "split_str sep [] = [[]]"
| "split_str sep (c # s) =
     (if c = sep then [] # split_str sep s
      else (case split_str sep s of [] \<Rightarrow> [[c]] | p # ps \<Rightarrow> (c # p) # ps))"

definition digitValue :: "char \<Rightarrow> nat option" where
  "digitValue c =
     (if 48 \<le> (of_char c :: nat) \<and> (of_char c :: nat) \<le> 57 then Some (of_char c - 48)
      else if 97 \<le> (of_char c :: nat) \<and> (of_char c :: nat) \<le> 122 then Some (of_char c - 87)
      else if 65 \<le> (of_char c :: nat) \<and> (of_char c :: nat) \<le> 90 then Some (of_char c - 55)
      else None)"

definition isRadixDigit :: "nat \<Rightarrow> char \<Rightarrow> bool" where
  "isRadixDigit radix c = (case digitValue c of None \<Rightarrow> False | Some v \<Rightarrow> v < radix)"

definition digitsValue :: "nat \<Rightarrow> string \<Rightarrow> nat" where
  "digitsValue radix digits =
     foldl (\<lambda>acc c. acc * radix + (case digitValue c of None \<Rightarrow> 0 | Some v \<Rightarrow> v)) 0 digits"

text \<open>\<open>Number.MAX_SAFE_INTEGER\<close>: up to it every integer is a double.\<close>

definition MAX_SAFE_INTEGER :: int where
  "MAX_SAFE_INTEGER = 2 ^ 53 - 1"

fun bitLength :: "nat \<Rightarrow> nat" where
  "bitLength n = (if n = 0 then 0 else Suc (bitLength (n div 2)))"

declare bitLength.simps [simp del]

text \<open>
  The double nearest to an integer, as an integer: a significand of 53 bits, a tie going to
  the even significand. (An integer of magnitude \<open>2 ^ 1024\<close> or more becomes an infinity
  in the source; that is outside the model.)
\<close>

definition toDouble :: "int \<Rightarrow> int" where
  "toDouble n =
     (let a = nat \<bar>n\<bar>;
          e = bitLength a
      in if e \<le> 53 then n
         else (let u = 2 ^ (e - 53);
                   q = a div u;
                   r = a mod u;
                   k = (if 2 * r < u then q else if u < 2 * r then q + 1
                        else if even q then q else q + 1)
               in sgn n * int (k * u)))"

text \<open>\<open>parseInt(s)\<close> with no radix argument: leading white space, an optional sign, an
  optional \<open>0x\<close> prefix, then the longest run of digits, whose value is returned as a
  double. (Beyond 20 significant decimal digits the language lets an implementation replace
  digits by zeros before rounding; the model rounds the exact value.)\<close>

definition parseInt :: "string \<Rightarrow> int option" where
  "parseInt s =
     (let s1 = dropWhile isWhiteSpace s;
          negative = (s1 \<noteq> [] \<and> hd s1 = CHR ''-'');
          s2 = (if s1 \<noteq> [] \<and> (hd s1 = CHR ''-'' \<or> hd s1 = CHR ''+'') then tl s1 else s1);
          hex = (prefix ''0x'' s2 \<or> prefix ''0X'' s2);
          radix = (if hex then 16 else 10);
          s3 = (if hex then drop 2 s2 else s2);
          digits = takeWhile (isRadixDigit radix) s3
      in if digits = [] then None
         else Some (toDouble ((if negative then - 1 else 1) * int (digitsValue radix digits))))"

text \<open>\<open>x || 0\<close> for a number \<open>x\<close>: \<open>NaN\<close> and 0 give 0.\<close>

definition orZero :: "int option \<Rightarrow> int" where
  "orZero x = (case x of None \<Rightarrow> 0 | Some v \<Rightarrow> if v = 0 then 0 else v)"

definition parseChainage :: "string \<Rightarrow> int" where
  "parseChainage chainagev =
     (let parts = split_str (CHR ''+'') chainagev in
      if length parts \<noteq> 2 then 0
      else (let km = orZero (parseInt (parts ! 0));
                m = orZero (parseInt (parts ! 1))
            in toDouble (toDouble (km * 1000) + m)))"

text \<open>The remainder operator \<open>%\<close> takes the sign of the dividend. In
  \<open>formatChainage\<close> the quotient \<open>meters / 1000\<close> is rounded to a double before
  \<open>Math.floor\<close>. For an integer \<open>meters\<close> of magnitude below \<open>2 ^ 44 * 1000\<close> the
  rounding moves it by at most \<open>2 ^ -10\<close>, and an exact quotient that is no integer is at
  least a thousandth away from every integer, so the floor is the integer quotient.\<close>

definition js_rem :: "int \<Rightarrow> int \<Rightarrow> int" where
  "js_rem a b = (if a < 0 then - ((- a) mod \<bar>b\<bar>) else a mod \<bar>b\<bar>)"

definition formatChainage :: "int \<Rightarrow> string" where
  "formatChainage meters =
     (let km = meters div 1000;
          m = js_rem meters 1000
      in String_int km @ ''+'' @ padStart 3 (CHR ''0'') (String_int m))"

definition patternPoint :: "string \<Rightarrow> string \<Rightarrow> ChainagePoint" where
  "patternPoint chainageStr rawLabel =
     (let label = trim rawLabel;
          upper = toUpperCase label;
          isCL = (upper = ''CL'' \<or> suffix '' CL'' upper);
          isRD = prefix ''RD'' upper;
          isLHS = includes_str upper ''LHS'';
          isRHS = includes_str upper ''RHS''
      in \<lparr>chainage_pt = chainageStr, offset = 0,
          displayName = (if isCL then chainageStr @ '' CL'' else label),
          chainageType_pt = (if isCL then Some CL else if isRD then Some RD
                             else if isLHS then Some LHS else if isRHS then Some RHS else None)\<rparr>)"

definition patternOf :: "string list option \<Rightarrow> string list" where
  "patternOf pointPattern = (case pointPattern of None \<Rightarrow> [] | Some pat \<Rightarrow> pat)"

text \<open>
  The body of the station loop of \<open>generateChainagePoints\<close>: the points pushed for the
  station at distance \<open>m\<close>. \<open>numStr\<close> is \<open>String(x)\<close> for a number that need not be an
  integer, as the JavaScript runtime prints it.
\<close>

definition stationPoints ::
  "(real \<Rightarrow> string) \<Rightarrow> int \<Rightarrow> string list option \<Rightarrow> int \<Rightarrow> ChainagePoint list" where
  "stationPoints numStr pointsPerChainage pointPattern m =
     (let offsetv = (if 1 < pointsPerChainage then 3.5 else 0 :: real);
          chainageStr = formatChainage m
      in if patternOf pointPattern \<noteq> [] then
           map (patternPoint chainageStr) (patternOf pointPattern)
         else if pointsPerChainage = 1 then
           [\<lparr>chainage_pt = chainageStr, offset = 0, displayName = chainageStr,
             chainageType_pt = None\<rparr>]
         else if pointsPerChainage = 3 then
           [\<lparr>chainage_pt = chainageStr, offset = - offsetv,
             displayName = numStr offsetv @ '' LHS'', chainageType_pt = Some LHS\<rparr>,
            \<lparr>chainage_pt = chainageStr, offset = 0,
             displayName = chainageStr @ '' CL'', chainageType_pt = Some CL\<rparr>,
            \<lparr>chainage_pt = chainageStr, offset = offsetv,
             displayName = numStr offsetv @ '' RHS'', chainageType_pt = Some RHS\<rparr>]
         else
           (let spacing = offsetv * 2 / real_of_int (pointsPerChainage - 1) in
            map (\<lambda>i. let pointOffset = - offsetv + real i * spacing in
                   \<lparr>chainage_pt = chainageStr, offset = pointOffset,
                    displayName = (if pointOffset = 0 then chainageStr
                                   else numStr \<bar>pointOffset\<bar>),
                    chainageType_pt = None\<rparr>)
              [0..<nat pointsPerChainage]))"

text \<open>
  The loop \<open>for (let m = fromM; m <= toM; m += interval)\<close>. It need not terminate, so
  the result is an option: \<open>None\<close> when the loop runs forever. The interval is a whole
  number and \<open>m + interval\<close> is the exact sum, which is what the source computes while
  the sum stays within \<open>MAX_SAFE_INTEGER\<close> in magnitude; beyond it the source's sum
  rounds.
\<close>

partial_function (option) stationLoop ::
  "(int \<Rightarrow> ChainagePoint list) \<Rightarrow> int \<Rightarrow> int \<Rightarrow> int \<Rightarrow> ChainagePoint list \<Rightarrow>
     ChainagePoint list option" where
  "stationLoop body toM interval m points =
     (if m \<le> toM then stationLoop body toM interval (m + interval) (points @ body m)
      else Some points)"

declare stationLoop.simps [code]

definition generateChainagePoints ::
  "(real \<Rightarrow> string) \<Rightarrow> string \<Rightarrow> string \<Rightarrow> int \<Rightarrow> int \<Rightarrow> string list option \<Rightarrow>
     ChainagePoint list option" where
  "generateChainagePoints numStr fromChainagev toChainagev pointsPerChainage interval pointPattern =
     (let fromM = parseChainage fromChainagev;
          toM = parseChainage toChainagev
      in stationLoop (stationPoints numStr pointsPerChainage pointPattern) toM interval fromM [])"

section \<open>Table rows of a project (lib/storage.ts)\<close>

text \<open>
  A project, without its id, date and time stamps. The fields \<open>pointsPerChainage\<close>,
  \<open>pointPattern\<close>, \<open>benchmark\<close> and \<open>rows\<close> carry the suffix \<open>_pj\<close>. The readings of the clock
  (\<open>Date.now()\<close>) are the parameter \<open>clock\<close>: \<open>clock 0\<close> when the benchmark row is
  built, \<open>clock (Suc index)\<close> when the row of point \<open>index\<close> is.
\<close>

record Project =
  title :: string
  layer :: string
  fromChainage :: string
  toChainage :: string
  chainageInterval :: int
  pointsPerChainage_pj :: int
  pointPattern_pj :: "string list option"
  benchmark_pj :: "Benchmark option"
  rows_pj :: "Row list"

definition generateTableRows ::
  "(real \<Rightarrow> string) \<Rightarrow> (nat \<Rightarrow> nat) \<Rightarrow> Project \<Rightarrow> Row list option" where
  "generateTableRows numStr clock project =
     (case generateChainagePoints numStr (fromChainage project) (toChainage project)
             (pointsPerChainage_pj project) (chainageInterval project) (pointPattern_pj project) of
        None \<Rightarrow> None
      | Some points \<Rightarrow>
          Some (blankRow (''row-bm-'' @ String_nat (clock 0)) [] None #
                map (\<lambda>(index, point).
                       blankRow (''row-'' @ String_nat (clock (Suc index)) @ ''-'' @ String_nat index)
                         (displayName point) (chainageType_pt point))
                  (enumerate 0 points)))"

section \<open>Pattern re-application (app/project/[id]/page.tsx)\<close>

text \<open>
  The \<open>existingMiddle.map\<close> callback of \<open>handleApplyPattern\<close> with its counter
  \<open>pointIndex\<close>: the relabelled rows and the value of the counter afterwards.
\<close>

fun nextMiddle_map :: "Row list \<Rightarrow> nat \<Rightarrow> Row list \<Rightarrow> Row list \<times> nat" where
  "nextMiddle_map newPointRows pointIndex [] = ([], pointIndex)"
| "nextMiddle_map newPointRows pointIndex (r # rs) =
     (if truthy (isCP r) then
        (r # fst (nextMiddle_map newPointRows pointIndex rs),
         snd (nextMiddle_map newPointRows pointIndex rs))
      else if length newPointRows \<le> pointIndex then
        (r # fst (nextMiddle_map newPointRows pointIndex rs),
         snd (nextMiddle_map newPointRows pointIndex rs))
      else
        (r\<lparr>chainage := chainage (newPointRows ! pointIndex),
           chainageType := chainageType (newPointRows ! pointIndex)\<rparr>
           # fst (nextMiddle_map newPointRows (pointIndex + 1) rs),
         snd (nextMiddle_map newPointRows (pointIndex + 1) rs)))"

definition parsePattern :: "string \<Rightarrow> string list" where
  "parsePattern patternText =
     filter (\<lambda>p. 0 < length p) (map trim (split_str (CHR '','') patternText))"

text \<open>
  \<open>handleApplyPattern\<close> as a function from the project held in the component state and the
  pattern text to the project it stores (\<open>setProject\<close>); an early return leaves the project
  as it is. \<open>None\<close>: the table generation does not terminate.
\<close>

definition handleApplyPattern ::
  "(real \<Rightarrow> string) \<Rightarrow> (nat \<Rightarrow> nat) \<Rightarrow> Project \<Rightarrow> string \<Rightarrow> Project option" where
  "handleApplyPattern numStr clock project patternText =
     (let parsed = parsePattern patternText in
      if length parsed = 0 then Some project
      else
        (case generateTableRows numStr clock (project\<lparr>pointPattern_pj := Some parsed\<rparr>) of
           None \<Rightarrow> None
         | Some regenerated \<Rightarrow>
             (let existingRows = rows_pj project;
                  bmRow = (case existingRows of [] \<Rightarrow> hd regenerated | r # rs \<Rightarrow> r);
                  closingRowv = find (\<lambda>r. truthy (isClosingBM r)) existingRows;
                  existingMiddle = filter (\<lambda>r. \<not> truthy (isClosingBM r)) (drop 1 existingRows);
                  newPointRows = drop 1 regenerated;
                  nextMiddle = fst (nextMiddle_map newPointRows 0 existingMiddle);
                  pointIndex = snd (nextMiddle_map newPointRows 0 existingMiddle);
                  appended = map (\<lambda>p. blankRow (row_id p) (chainage p) (chainageType p))
                               (drop pointIndex newPointRows);
                  baseRows = bmRow # nextMiddle @ appended;
                  newRows = (case closingRowv of
                               None \<Rightarrow> baseRows
                             | Some c \<Rightarrow> filter (\<lambda>r. \<not> truthy (isClosingBM r)) baseRows @ [c])
              in Some (project\<lparr>pointPattern_pj := Some parsed, rows_pj := newRows\<rparr>))))"

section \<open>Normal form of a chainage string\<close>

text \<open>
  The normal form the round-trip law of the specification refers to, for a chainage with the
  kilometre digits \<open>ks\<close> and the metre digits \<open>ms\<close>: the kilometres without leading
  zeros (a single 0 when they are all zeros), a plus sign, and the metres padded with zeros
  to three digits. It is defined on the digits alone, with no reference to the parser or the
  formatter.
\<close>

definition decimal_digits :: "char set" where
  "decimal_digits = set ''0123456789''"

definition stripZeros :: "string \<Rightarrow> string" where
  "stripZeros ds = (case dropWhile (\<lambda>c. c = CHR ''0'') ds of [] \<Rightarrow> ''0'' | c # cs \<Rightarrow> c # cs)"

definition spec_normalize :: "string \<Rightarrow> string \<Rightarrow> string" where
  "spec_normalize ks ms = stripZeros ks @ ''+'' @ padStart 3 (CHR ''0'') ms"

section \<open>Sample inputs\<close>

text \<open>The end-to-end scenario of the specification: benchmark RL 100, a first row with
  \<open>bs = 1.5\<close>, then \<open>is = 1.0\<close>, then \<open>fs = 2.0\<close>.\<close>

definition scenario_bm :: "Benchmark option" where
  "scenario_bm = Some \<lparr>name_bm = ''BM1'', rl_bm = 100\<rparr>"

definition scenario_rows :: "Row list" where
  "scenario_rows =
     [(blankRow ''row-bm'' [] None)\<lparr>bs := Some 1.5\<rparr>,
      (blankRow ''row-1'' ''0+000 CL'' (Some CL))\<lparr>row_is := Some 1\<rparr>,
      (blankRow ''row-2'' ''3.5 RHS'' (Some RHS))\<lparr>fs := Some 2\<rparr>]"

text \<open>The same rows against a benchmark of RL \<open>-1.5\<close>: the height of collimation is
  exactly 0.\<close>

definition zero_hoc_bm :: "Benchmark option" where
  "zero_hoc_bm = Some \<lparr>name_bm = ''BM1'', rl_bm = - 1.5\<rparr>"

text \<open>A closed traverse: a first row with \<open>bs = 0.7\<close> against the benchmark of RL 100
  (height of collimation 100.7), then a closing-benchmark row with \<open>fs = 0.8\<close> and a
  known closing value of 99.9.\<close>

definition closing_example :: Row where
  "closing_example =
     (blankRow ''close-bm-1'' [] None)
       \<lparr>fs := Some 0.8, isClosingBM := Some True, closingBMValue := Some 99.9\<rparr>"

definition closing_pre :: "Row list" where
  "closing_pre = [(blankRow ''row-bm'' [] None)\<lparr>bs := Some 0.7\<rparr>]"

text \<open>Rows that hold a change point at index 1: as the last row, followed by its pushed
  companion, and followed by a row that is not a pushed companion.\<close>

definition cp_last_rows :: "Row list" where
  "cp_last_rows =
     [(blankRow ''row-bm'' [] None)\<lparr>bs := Some 1.5\<rparr>,
      (blankRow ''row-2'' ''CP01'' (Some RHS))
        \<lparr>bs := Some 1.2, fs := Some 2, isCP := Some True, cpLabel := Some ''CP01'',
         cpRL := Some 99.5, cpHOC := Some 100.7\<rparr>]"

definition cp_pushed_rows :: "Row list" where
  "cp_pushed_rows = cp_last_rows @ [blankRow ''row-17-pushed'' ''3.5 RHS'' (Some RHS)]"

definition cp_plain_rows :: "Row list" where
  "cp_plain_rows = cp_last_rows @ [blankRow ''row-3'' ''0+020 CL'' (Some CL)]"

text \<open>A stand-in for the runtime's printing of numbers: it prints 3.5 as \<open>3.5\<close>.\<close>

definition numStr_sample :: "real \<Rightarrow> string" where
  "numStr_sample x = (if x = 3.5 then ''3.5'' else ''?'')"

text \<open>A project from \<open>0+000\<close> to \<open>0+020\<close> at interval 20 whose table holds the
  benchmark row, an intermediate sight, a change point, a foresight and the closing row; and a
  clock that always reads 17.\<close>

definition sample_rest :: "Row list" where
  "sample_rest =
     [(blankRow ''row-1'' ''3.5 LHS'' (Some LHS))\<lparr>row_is := Some 1\<rparr>,
      (blankRow ''row-2'' ''CP01'' (Some RHS))
        \<lparr>bs := Some 1.2, fs := Some 2, isCP := Some True, cpLabel := Some ''CP01'',
         cpRL := Some 99.5, cpHOC := Some 100.7\<rparr>,
      (blankRow ''row-3'' ''3.5 RHS'' (Some RHS))\<lparr>fs := Some 2\<rparr>,
      closing_example]"

definition sample_bmRow :: Row where
  "sample_bmRow = (blankRow ''row-bm'' [] None)\<lparr>bs := Some 1.5\<rparr>"

definition sample_project :: Project where
  "sample_project =
     \<lparr>title = ''LEVEL CHECK'', layer = ''G15'', fromChainage = ''0+000'', toChainage = ''0+020'',
      chainageInterval = 20, pointsPerChainage_pj = 3, pointPattern_pj = None,
      benchmark_pj = scenario_bm, rows_pj = sample_bmRow # sample_rest\<rparr>"

definition sample_clock :: "nat \<Rightarrow> nat" where
  "sample_clock k = 17"

section \<open>Facts about the reduction\<close>

lemmas reduction_defs = processRows_def initialState_def processRow_def truthy_def blankRow_def
  ordinaryHOC_def ordinaryRL_def ordinaryDiff_def calculateRL_def calculateDiff_def
  closingRow_def cpRow_def cpState_def

lemma length_processRows_map: "length (processRows_map index s rows) = length rows"
  by (induction rows arbitrary: index s) simp_all

lemma length_processRows: "length (processRows rows benchmark) = length rows"
  by (simp add: processRows_def length_processRows_map)

lemma processRows_state_append:
  "processRows_state index s (pre @ post) =
     processRows_state (index + length pre) (processRows_state index s pre) post"
  by (induction pre arbitrary: index s) simp_all

lemma processRows_map_nth:
  "processRows_map index s (pre @ row # post) ! length pre =
     fst (processRow (index + length pre) (processRows_state index s pre) row)"
  by (induction pre arbitrary: index s) simp_all

lemma closingRow_fs: "fs (closingRow index currentHOC row) = fs row"
  by (simp add: closingRow_def split: option.split)

lemma cpRow_fs: "fs (cpRow row) = fs row"
  by (simp add: cpRow_def split: option.split)

lemma ordinaryHOC_fs: "fs (fst (ordinaryHOC s row)) = fs row"
  by (simp add: ordinaryHOC_def split: prod.split option.split)

lemma ordinaryRL_fs: "fs (ordinaryRL row) = fs row"
  by (simp add: ordinaryRL_def split: option.split)

lemma ordinaryDiff_fs: "fs (ordinaryDiff row) = fs row"
  by (simp add: ordinaryDiff_def split: option.split)

lemma processRow_fs: "fs (fst (processRow index s row)) = fs row"
  by (simp add: processRow_def case_prod_beta closingRow_fs cpRow_fs ordinaryDiff_fs
      ordinaryRL_fs ordinaryHOC_fs)

lemma processRows_map_fs:
  "i < length rows \<Longrightarrow> fs (processRows_map index s rows ! i) = fs (rows ! i)"
proof (induction rows arbitrary: index s i)
  case Nil
  then show ?case by simp
next
  case (Cons row rows)
  then show ?case by (cases i) (simp_all add: processRow_fs)
qed

lemma processRows_fs:
  "i < length rows \<Longrightarrow> fs (processRows rows benchmark ! i) = fs (rows ! i)"
  by (simp add: processRows_def processRows_map_fs)

text \<open>
  An ordinary row (no closing row, no change point), reduced in the fold state
  \<open>(currentHOC, currentBM)\<close>: its \<open>hoc\<close>, the state after it, its \<open>rl\<close> when that
  \<open>hoc\<close> is not zero, and its \<open>diff\<close>. A field the callback does not assign keeps the
  value the input row has.
\<close>

lemma ordinaryHOC_hoc:
  "hoc (fst (ordinaryHOC (currentHOC, currentBM) row)) =
     (case bs row of
        Some b \<Rightarrow> (case currentBM of
                     Some m \<Rightarrow> Some (m + b)
                   | None \<Rightarrow> (case currentHOC of Some h \<Rightarrow> Some h | None \<Rightarrow> hoc row))
      | None \<Rightarrow> (case currentHOC of Some h \<Rightarrow> Some h | None \<Rightarrow> hoc row))"
  by (simp add: ordinaryHOC_def split: option.split)

lemma ordinaryHOC_state:
  "snd (ordinaryHOC (currentHOC, currentBM) row) =
     (case bs row of
        Some b \<Rightarrow> (case currentBM of
                     Some m \<Rightarrow> (Some (m + b), currentBM)
                   | None \<Rightarrow> (currentHOC, currentBM))
      | None \<Rightarrow> (currentHOC, currentBM))"
  by (simp add: ordinaryHOC_def split: option.split)

lemma ordinaryHOC_fields:
  "row_is (fst (ordinaryHOC s row)) = row_is row" "rl (fst (ordinaryHOC s row)) = rl row"
  "d (fst (ordinaryHOC s row)) = d row" "diff (fst (ordinaryHOC s row)) = diff row"
  by (simp_all add: ordinaryHOC_def split: prod.split option.split)

lemma ordinaryRL_fields:
  "hoc (ordinaryRL row) = hoc row" "d (ordinaryRL row) = d row" "diff (ordinaryRL row) = diff row"
  by (simp_all add: ordinaryRL_def split: option.split)

lemma ordinaryRL_rl:
  "hoc row = Some h \<Longrightarrow> h \<noteq> 0 \<Longrightarrow>
   rl (ordinaryRL row) =
     (case row_is row of
        Some i \<Rightarrow> Some (h - i)
      | None \<Rightarrow> (case fs row of Some f \<Rightarrow> Some (h - f) | None \<Rightarrow> rl row))"
  by (simp add: ordinaryRL_def calculateRL_def split: option.split)

lemma ordinaryDiff_fields:
  "hoc (ordinaryDiff row) = hoc row" "rl (ordinaryDiff row) = rl row"
  by (simp_all add: ordinaryDiff_def split: option.split)

lemma ordinaryDiff_diff:
  "diff (ordinaryDiff row) =
     (case rl row of
        None \<Rightarrow> diff row
      | Some r \<Rightarrow> (case d row of None \<Rightarrow> diff row | Some dv \<Rightarrow> Some (dv - r)))"
  by (simp add: ordinaryDiff_def calculateDiff_def split: option.split)

lemma ordinary_row_reduction:
  assumes "\<not> truthy (isClosingBM row)" and "\<not> truthy (isCP row)"
  shows "hoc (fst (processRow index (currentHOC, currentBM) row)) =
           (case bs row of
              Some b \<Rightarrow> (case currentBM of
                           Some m \<Rightarrow> Some (m + b)
                         | None \<Rightarrow> (case currentHOC of Some h \<Rightarrow> Some h | None \<Rightarrow> hoc row))
            | None \<Rightarrow> (case currentHOC of Some h \<Rightarrow> Some h | None \<Rightarrow> hoc row))"
    and "snd (processRow index (currentHOC, currentBM) row) =
           (case bs row of
              Some b \<Rightarrow> (case currentBM of
                           Some m \<Rightarrow> (Some (m + b), currentBM)
                         | None \<Rightarrow> (currentHOC, currentBM))
            | None \<Rightarrow> (currentHOC, currentBM))"
    and "hoc (fst (processRow index (currentHOC, currentBM) row)) = Some h \<Longrightarrow> h \<noteq> 0 \<Longrightarrow>
         rl (fst (processRow index (currentHOC, currentBM) row)) =
           (case row_is row of
              Some i \<Rightarrow> Some (h - i)
            | None \<Rightarrow> (case fs row of Some f \<Rightarrow> Some (h - f) | None \<Rightarrow> rl row))"
    and "diff (fst (processRow index (currentHOC, currentBM) row)) =
           (case rl (fst (processRow index (currentHOC, currentBM) row)) of
              None \<Rightarrow> diff row
            | Some r \<Rightarrow> (case d row of None \<Rightarrow> diff row | Some dv \<Rightarrow> Some (dv - r)))"
proof -
  have out: "fst (processRow index (currentHOC, currentBM) row) =
      ordinaryDiff (ordinaryRL (fst (ordinaryHOC (currentHOC, currentBM) row)))"
    and st: "snd (processRow index (currentHOC, currentBM) row) =
      snd (ordinaryHOC (currentHOC, currentBM) row)"
    using assms by (simp_all add: processRow_def case_prod_beta)
  show "hoc (fst (processRow index (currentHOC, currentBM) row)) =
           (case bs row of
              Some b \<Rightarrow> (case currentBM of
                           Some m \<Rightarrow> Some (m + b)
                         | None \<Rightarrow> (case currentHOC of Some h \<Rightarrow> Some h | None \<Rightarrow> hoc row))
            | None \<Rightarrow> (case currentHOC of Some h \<Rightarrow> Some h | None \<Rightarrow> hoc row))"
    by (simp only: out ordinaryDiff_fields ordinaryRL_fields ordinaryHOC_hoc)
  show "snd (processRow index (currentHOC, currentBM) row) =
           (case bs row of
              Some b \<Rightarrow> (case currentBM of
                           Some m \<Rightarrow> (Some (m + b), currentBM)
                         | None \<Rightarrow> (currentHOC, currentBM))
            | None \<Rightarrow> (currentHOC, currentBM))"
    by (simp only: st ordinaryHOC_state)
  show "rl (fst (processRow index (currentHOC, currentBM) row)) =
           (case row_is row of
              Some i \<Rightarrow> Some (h - i)
            | None \<Rightarrow> (case fs row of Some f \<Rightarrow> Some (h - f) | None \<Rightarrow> rl row))"
    if "hoc (fst (processRow index (currentHOC, currentBM) row)) = Some h" and "h \<noteq> 0"
  proof -
    have "hoc (fst (ordinaryHOC (currentHOC, currentBM) row)) = Some h"
      using that(1) by (simp only: out ordinaryDiff_fields ordinaryRL_fields)
    from ordinaryRL_rl [OF this that(2)] show ?thesis
      by (simp only: out ordinaryDiff_fields ordinaryHOC_fields ordinaryHOC_fs)
  qed
  show "diff (fst (processRow index (currentHOC, currentBM) row)) =
           (case rl (fst (processRow index (currentHOC, currentBM) row)) of
              None \<Rightarrow> diff row
            | Some r \<Rightarrow> (case d row of None \<Rightarrow> diff row | Some dv \<Rightarrow> Some (dv - r)))"
    by (simp only: out ordinaryDiff_diff ordinaryDiff_fields ordinaryRL_fields ordinaryHOC_fields)
qed


lemma addChangePoint_success:
  assumes "i < length rows" and "fs (rows ! i) = Some f"
    and "hoc (processRows rows benchmark ! i) = Some h" and "h \<noteq> 0"
  shows "addChangePoint now rows i newBS label benchmark =
     take i rows @
     [(rows ! i)\<lparr>bs := Some newBS,
         chainage := (case label of None \<Rightarrow> defaultCPLabel rows
                      | Some l \<Rightarrow> if l = [] then defaultCPLabel rows else l),
         isCP := Some True,
         cpLabel := Some (case label of None \<Rightarrow> defaultCPLabel rows
                      | Some l \<Rightarrow> if l = [] then defaultCPLabel rows else l),
         cpRL := Some (h - f), cpHOC := Some (h - f + newBS)\<rparr>,
      (rows ! i)\<lparr>row_id := ''row-'' @ String_nat now @ ''-pushed'',
         bs := Some newBS, fs := None, row_is := None, hoc := None, rl := None, diff := None\<rparr>]
     @ drop (Suc i) rows"
  using assms
  by (simp add: addChangePoint_def Let_def length_processRows processRows_fs
      take_Suc_conv_app_nth)

section \<open>Closing-benchmark rows\<close>

lemma initialState_hoc: "fst (initialState benchmark) = None"
  by (simp add: initialState_def)

lemma processRow_closing_state:
  "truthy (isClosingBM row) \<Longrightarrow> snd (processRow index s row) = s"
  by (simp add: processRow_def)

text \<open>
  Claim C5. Let \<open>row\<close> be a row with \<open>isClosingBM\<close> set, reduced after the rows
  \<open>pre\<close> and before the rows \<open>post\<close>. The fold state after the closing row is the
  state before it (it is not advanced). If a previous HOC \<open>h\<close> exists and the row's
  \<open>fs\<close> is \<open>f\<close>, the reduced row has \<open>rl = h - f\<close>; if moreover
  \<open>closingBMValue\<close> is \<open>c\<close>, it has \<open>d = c\<close> and \<open>diff = c - (h - f)\<close>. In
  particular \<open>fs = 0.8\<close> against a current HOC of 100.7 and a closing value of 99.9 gives
  \<open>rl = 99.9\<close> and \<open>diff = 0\<close>.
\<close>

theorem closing_row_reduction:
  assumes "truthy (isClosingBM row)"
  shows "processRows_state 0 (initialState benchmark) (pre @ [row]) =
           processRows_state 0 (initialState benchmark) pre \<and>
         (\<forall>h f. fst (processRows_state 0 (initialState benchmark) pre) = Some h \<and> fs row = Some f \<longrightarrow>
            rl (processRows (pre @ row # post) benchmark ! length pre) = Some (h - f) \<and>
            (\<forall>c. closingBMValue row = Some c \<longrightarrow>
               d (processRows (pre @ row # post) benchmark ! length pre) = Some c \<and>
               diff (processRows (pre @ row # post) benchmark ! length pre) = Some (c - (h - f)))) \<and>
         (fst (processRows_state 0 (initialState benchmark) pre) = Some 100.7 \<and> fs row = Some 0.8 \<and>
            closingBMValue row = Some 99.9 \<longrightarrow>
            rl (processRows (pre @ row # post) benchmark ! length pre) = Some 99.9 \<and>
            diff (processRows (pre @ row # post) benchmark ! length pre) = Some 0)"
proof -
  let ?s = "processRows_state 0 (initialState benchmark) pre"
  let ?out = "processRows (pre @ row # post) benchmark ! length pre"
  have out: "?out = closingRow (length pre) (fst ?s) row"
    using assms by (simp add: processRows_def processRows_map_nth processRow_def)
  have pos: "0 < length pre" if "fst ?s = Some h" for h
    using that by (cases pre) (simp_all add: initialState_hoc)
  have state: "processRows_state 0 (initialState benchmark) (pre @ [row]) = ?s"
    using assms by (simp add: processRows_state_append processRow_closing_state)
  have gen: "rl ?out = Some (h - f) \<and>
      (\<forall>c. closingBMValue row = Some c \<longrightarrow> d ?out = Some c \<and> diff ?out = Some (c - (h - f)))"
    if "fst ?s = Some h" "fs row = Some f" for h f
    using that pos [OF that(1)] by (simp add: out closingRow_def split: option.splits)
  have ex: "rl ?out = Some 99.9 \<and> diff ?out = Some 0"
    if "fst ?s = Some 100.7" "fs row = Some 0.8" "closingBMValue row = Some 99.9"
  proof -
    have "rl ?out = Some (100.7 - 0.8) \<and> diff ?out = Some (99.9 - (100.7 - 0.8))"
      using gen [OF that(1,2)] that(3) by blast
    then show ?thesis by simp
  qed
  have g2: "\<forall>h f. fst ?s = Some h \<and> fs row = Some f \<longrightarrow>
            rl ?out = Some (h - f) \<and>
            (\<forall>c. closingBMValue row = Some c \<longrightarrow> d ?out = Some c \<and> diff ?out = Some (c - (h - f)))"
    using gen by (intro allI impI) (elim conjE)
  have e2: "fst ?s = Some 100.7 \<and> fs row = Some 0.8 \<and> closingBMValue row = Some 99.9 \<longrightarrow>
            rl ?out = Some 99.9 \<and> diff ?out = Some 0"
    using ex by (intro impI) (elim conjE)
  show ?thesis by (intro conjI state g2 e2)
qed

theorem closing_row_reduction_witness:
  "truthy (isClosingBM closing_example) \<and>
   fst (processRows_state 0 (initialState scenario_bm) closing_pre) = Some 100.7 \<and>
   rl (processRows (closing_pre @ closing_example # []) scenario_bm ! length closing_pre) = Some 99.9 \<and>
   diff (processRows (closing_pre @ closing_example # []) scenario_bm ! length closing_pre) = Some 0"
proof -
  have flag: "truthy (isClosingBM closing_example)"
    by (simp add: closing_example_def truthy_def)
  have state: "fst (processRows_state 0 (initialState scenario_bm) closing_pre) = Some 100.7"
    by (simp add: closing_pre_def scenario_bm_def initialState_def processRow_def truthy_def
        blankRow_def ordinaryHOC_def)
  have sights: "fs closing_example = Some 0.8" "closingBMValue closing_example = Some 99.9"
    by (simp_all add: closing_example_def)
  note example = closing_row_reduction [OF flag, of scenario_bm closing_pre "[]",
      THEN conjunct2, THEN conjunct2, rule_format]
  have "rl (processRows (closing_pre @ closing_example # []) scenario_bm ! length closing_pre) = Some 99.9 \<and>
        diff (processRows (closing_pre @ closing_example # []) scenario_bm ! length closing_pre) = Some 0"
    by (rule example) (intro conjI state sights)
  then show ?thesis by (intro conjI flag state) (elim conjE, assumption)+
qed

section \<open>Readings and levels that are exactly zero\<close>

lemma scenario_hoc: "hoc (processRows scenario_rows scenario_bm ! 2) = Some 101.5"
  by (simp add: scenario_rows_def scenario_bm_def reduction_defs)

lemma scenario_fs: "fs (scenario_rows ! 2) = Some 2"
  by (simp add: scenario_rows_def blankRow_def)

lemma scenario_length: "2 < length scenario_rows"
  by (simp add: scenario_rows_def)


text \<open>
  Claim C1 (ordinary rows are reduced by a left-to-right fold; if \<open>hoc\<close> is defined,
  \<open>rl = hoc - is\<close> when \<open>is\<close> is present). The reduction at a height of collimation of
  exactly 0: with the benchmark at RL \<open>-1.5\<close> and a first backsight of \<open>1.5\<close>, the second
  row carries \<open>hoc = 0\<close> and \<open>is = 1\<close>, and its \<open>rl\<close> stays unset, where the claim
  gives \<open>rl = 0 - 1\<close>.
\<close>

theorem zero_hoc_row_not_reduced:
  "hoc (processRows scenario_rows zero_hoc_bm ! 1) = Some 0 \<and>
   row_is (processRows scenario_rows zero_hoc_bm ! 1) = Some 1 \<and>
   rl (processRows scenario_rows zero_hoc_bm ! 1) = None"
  by (simp add: scenario_rows_def zero_hoc_bm_def reduction_defs)

text \<open>
  Claim C2 (a value of exactly 0 is present, not missing). In \<open>processRows\<close> a backsight of
  0 against a benchmark of RL 10 does give \<open>hoc = 10\<close>; the helper \<open>calculateHOC\<close> gives
  no height of collimation for it. A height of collimation of 0 is taken for a missing one:
  \<open>calculateRL\<close> answers \<open>undefined\<close> for it, the foresight row of the scenario keeps
  \<open>rl\<close> unset, and \<open>addChangePoint\<close> returns its input.
\<close>

theorem zero_treated_as_missing:
  "hoc (processRows [(blankRow ''row-bm'' [] None)\<lparr>bs := Some 0\<rparr>]
          (Some \<lparr>name_bm = ''BM1'', rl_bm = 10\<rparr>) ! 0) = Some 10 \<and>
   calculateHOC ((blankRow ''row-bm'' [] None)\<lparr>bs := Some 0\<rparr>) None
     (Some \<lparr>name_bm = ''BM1'', rl_bm = 10\<rparr>) = None \<and>
   calculateRL ((blankRow ''row-2'' ''3.5 RHS'' (Some RHS))\<lparr>fs := Some 2\<rparr>) (Some 0) = None \<and>
   rl (processRows scenario_rows zero_hoc_bm ! 2) = None \<and>
   addChangePoint 17 scenario_rows 2 1.2 (Some ''CP01'') zero_hoc_bm = scenario_rows"
  by (simp add: addChangePoint_def calculateHOC_def scenario_rows_def zero_hoc_bm_def
      reduction_defs)

section \<open>Inserting a change point\<close>

lemma spliced_rows:
  assumes "i < length rows"
  shows "length (take i rows @ [a, b] @ drop (Suc i) rows) = length rows + 1"
    and "(take i rows @ [a, b] @ drop (Suc i) rows) ! i = a"
    and "(take i rows @ [a, b] @ drop (Suc i) rows) ! Suc i = b"
    and "take i (take i rows @ [a, b] @ drop (Suc i) rows) = take i rows"
    and "drop (Suc (Suc i)) (take i rows @ [a, b] @ drop (Suc i) rows) = drop (Suc i) rows"
  using assms by (simp_all add: nth_append min_def)


text \<open>
  Claim C3 (\<open>addChangePoint\<close> returns its input when \<open>fs\<close> is unset or the reduced
  \<open>hoc\<close> is undefined, and rewrites the target row otherwise). The target row of the
  scenario has \<open>fs = 2\<close> and, against the benchmark of RL \<open>-1.5\<close>, a defined reduced
  \<open>hoc\<close> of 0: \<open>addChangePoint\<close> returns the input unchanged.
\<close>

theorem zero_hoc_change_point_refused:
  "fs (scenario_rows ! 2) = Some 2 \<and>
   hoc (processRows scenario_rows zero_hoc_bm ! 2) = Some 0 \<and>
   addChangePoint 17 scenario_rows 2 1.2 None zero_hoc_bm = scenario_rows"
  by (simp add: addChangePoint_def scenario_rows_def zero_hoc_bm_def reduction_defs)

text \<open>
  Claim C4, as stated (the pushed row has \<open>bs\<close>, \<open>is\<close> and \<open>fs\<close> cleared), fails on
  the scenario: inserting a change point at the foresight row with a new backsight of 1.2
  gives a pushed row whose \<open>bs\<close> is 1.2.
\<close>

theorem pushed_row_keeps_backsight:
  "fs (scenario_rows ! 2) = Some 2 \<and>
   hoc (processRows scenario_rows scenario_bm ! 2) = Some 101.5 \<and>
   length (addChangePoint 17 scenario_rows 2 1.2 None scenario_bm) = 4 \<and>
   bs (addChangePoint 17 scenario_rows 2 1.2 None scenario_bm ! 3) = Some 1.2"
  by (simp add: addChangePoint_def Let_def scenario_rows_def scenario_bm_def reduction_defs)

text \<open>
  Claim C4, amended. Whenever \<open>addChangePoint\<close> goes through (the target row exists, its
  \<open>fs\<close> is set and its reduced \<open>hoc\<close> is defined and not zero), the result is one row
  longer than the input, the rows before the target and after it are the input's, the target
  row is a change point, and the row inserted right after it is the original row with a new
  id: it carries the original chainage label and station type, its \<open>bs\<close> is the new
  backsight, and \<open>is\<close>, \<open>fs\<close>, \<open>hoc\<close>, \<open>rl\<close> and \<open>diff\<close> are unset.
\<close>

theorem addChangePoint_pushed_row:
  assumes "i < length rows" and "fs (rows ! i) = Some f"
    and "hoc (processRows rows benchmark ! i) = Some h" and "h \<noteq> 0"
  shows "length (addChangePoint now rows i newBS label benchmark) = length rows + 1 \<and>
         take i (addChangePoint now rows i newBS label benchmark) = take i rows \<and>
         drop (i + 2) (addChangePoint now rows i newBS label benchmark) = drop (Suc i) rows \<and>
         isCP (addChangePoint now rows i newBS label benchmark ! i) = Some True \<and>
         addChangePoint now rows i newBS label benchmark ! Suc i =
           (rows ! i)\<lparr>row_id := ''row-'' @ String_nat now @ ''-pushed'', bs := Some newBS,
              fs := None, row_is := None, hoc := None, rl := None, diff := None\<rparr> \<and>
         chainage (addChangePoint now rows i newBS label benchmark ! Suc i) = chainage (rows ! i) \<and>
         chainageType (addChangePoint now rows i newBS label benchmark ! Suc i) = chainageType (rows ! i) \<and>
         bs (addChangePoint now rows i newBS label benchmark ! Suc i) = Some newBS \<and>
         row_is (addChangePoint now rows i newBS label benchmark ! Suc i) = None \<and>
         fs (addChangePoint now rows i newBS label benchmark ! Suc i) = None \<and>
         hoc (addChangePoint now rows i newBS label benchmark ! Suc i) = None \<and>
         rl (addChangePoint now rows i newBS label benchmark ! Suc i) = None \<and>
         diff (addChangePoint now rows i newBS label benchmark ! Suc i) = None"
proof -
  define a where "a = (rows ! i)\<lparr>bs := Some newBS,
         chainage := (case label of None \<Rightarrow> defaultCPLabel rows
                      | Some l \<Rightarrow> if l = [] then defaultCPLabel rows else l),
         isCP := Some True,
         cpLabel := Some (case label of None \<Rightarrow> defaultCPLabel rows
                      | Some l \<Rightarrow> if l = [] then defaultCPLabel rows else l),
         cpRL := Some (h - f), cpHOC := Some (h - f + newBS)\<rparr>"
  define b where "b = (rows ! i)\<lparr>row_id := ''row-'' @ String_nat now @ ''-pushed'',
         bs := Some newBS, fs := None, row_is := None, hoc := None, rl := None, diff := None\<rparr>"
  have eq: "addChangePoint now rows i newBS label benchmark = take i rows @ [a, b] @ drop (Suc i) rows"
    unfolding a_def b_def by (rule addChangePoint_success [OF assms])
  note sp = spliced_rows [OF assms(1), of a b, folded eq]
  have "isCP a = Some True" by (simp add: a_def)
  then show ?thesis
    by (simp add: sp) (simp add: b_def)
qed

theorem addChangePoint_pushed_row_witness:
  "2 < length scenario_rows \<and> fs (scenario_rows ! 2) = Some 2 \<and>
   hoc (processRows scenario_rows scenario_bm ! 2) = Some 101.5 \<and> (101.5 :: real) \<noteq> 0 \<and>
   length (addChangePoint 17 scenario_rows 2 1.2 None scenario_bm) = length scenario_rows + 1 \<and>
   chainage (addChangePoint 17 scenario_rows 2 1.2 None scenario_bm ! Suc 2) = chainage (scenario_rows ! 2) \<and>
   bs (addChangePoint 17 scenario_rows 2 1.2 None scenario_bm ! Suc 2) = Some 1.2 \<and>
   fs (addChangePoint 17 scenario_rows 2 1.2 None scenario_bm ! Suc 2) = None"
proof -
  have nz: "(101.5 :: real) \<noteq> 0" by simp
  note inst = addChangePoint_pushed_row [OF scenario_length scenario_fs scenario_hoc nz,
      of 17 "1.2" None]
  show ?thesis
    using scenario_length scenario_fs scenario_hoc nz inst by (intro conjI) (elim conjE, assumption)+
qed

section \<open>Removing a change point\<close>

lemma deleteChangePoint_pushed:
  assumes "Suc i < length rows" and "truthy (isCP (rows ! i))"
    and "includes_str (row_id (rows ! Suc i)) ''-pushed''"
  shows "deleteChangePoint rows i =
     take i rows @ [restoreFsRow (rows ! i) (chainage (rows ! Suc i))] @ drop (i + 2) rows"
proof -
  let ?r = "restoreFsRow (rows ! i) (chainage (rows ! Suc i))"
  have i: "i < length rows" using assms(1) by simp
  have "take (Suc i) (rows[i := ?r]) = take i rows @ [?r]"
    using i by (simp add: take_Suc_conv_app_nth)
  moreover have "drop (Suc (Suc i)) (rows[i := ?r]) = drop (i + 2) rows"
    by simp
  moreover have "(if chainage (rows ! Suc i) = [] then [] else chainage (rows ! Suc i)) =
      chainage (rows ! Suc i)"
    by simp
  ultimately show ?thesis
    using assms by (simp add: deleteChangePoint_def Let_def)
qed

lemma deleteChangePoint_not_pushed:
  assumes "Suc i < length rows" and "truthy (isCP (rows ! i))"
    and "\<not> includes_str (row_id (rows ! Suc i)) ''-pushed''"
  shows "deleteChangePoint rows i = rows[i := restoreFsRow (rows ! i) []]"
  using assms by (simp add: deleteChangePoint_def Let_def)

lemma deleteChangePoint_last:
  assumes "length rows \<le> Suc i"
  shows "deleteChangePoint rows i = rows"
  using assms by (simp add: deleteChangePoint_def Let_def)






text \<open>
  The three paths of \<open>deleteChangePoint\<close> at a change-point row \<open>i\<close>. If the next row
  exists and is a pushed row (its id contains \<open>-pushed\<close>), the result is one row shorter: the
  rows before \<open>i\<close> are kept, the next row is deleted, and row \<open>i\<close> takes the chainage of
  the deleted row and has \<open>bs\<close>, \<open>cpLabel\<close>, \<open>cpRL\<close>, \<open>cpHOC\<close> unset and \<open>isCP\<close>
  false. If the next row exists and is not a pushed row, only row \<open>i\<close> changes: the same
  fields are cleared and its chainage is blank. If row \<open>i\<close> is the last row, the input is
  returned unchanged.
\<close>

lemma deleteChangePoint_cases:
  assumes "i < length rows" and "truthy (isCP (rows ! i))"
  shows "(Suc i < length rows \<and> includes_str (row_id (rows ! Suc i)) ''-pushed'' \<longrightarrow>
            length (deleteChangePoint rows i) + 1 = length rows \<and>
            take i (deleteChangePoint rows i) = take i rows \<and>
            drop (Suc i) (deleteChangePoint rows i) = drop (i + 2) rows \<and>
            deleteChangePoint rows i ! i =
              (rows ! i)\<lparr>bs := None, isCP := Some False, cpLabel := None, cpRL := None,
                 cpHOC := None, chainage := chainage (rows ! Suc i)\<rparr>) \<and>
         (Suc i < length rows \<and> \<not> includes_str (row_id (rows ! Suc i)) ''-pushed'' \<longrightarrow>
            deleteChangePoint rows i =
              rows[i := (rows ! i)\<lparr>bs := None, isCP := Some False, cpLabel := None, cpRL := None,
                 cpHOC := None, chainage := []\<rparr>]) \<and>
         (length rows \<le> Suc i \<longrightarrow> deleteChangePoint rows i = rows)"
proof (intro conjI impI)
  assume "length rows \<le> Suc i"
  then show "deleteChangePoint rows i = rows" by (rule deleteChangePoint_last)
next
  assume a: "Suc i < length rows \<and> \<not> includes_str (row_id (rows ! Suc i)) ''-pushed''"
  then show "deleteChangePoint rows i =
      rows[i := (rows ! i)\<lparr>bs := None, isCP := Some False, cpLabel := None, cpRL := None,
         cpHOC := None, chainage := []\<rparr>]"
    using assms(2) by (simp add: deleteChangePoint_not_pushed restoreFsRow_def)
next
  assume a: "Suc i < length rows \<and> includes_str (row_id (rows ! Suc i)) ''-pushed''"
  define r where "r = restoreFsRow (rows ! i) (chainage (rows ! Suc i))"
  have del: "deleteChangePoint rows i = take i rows @ [r] @ drop (i + 2) rows"
    unfolding r_def using a assms(2) by (simp add: deleteChangePoint_pushed)
  have "Suc i < length rows" using a by (rule conjunct1)
  then show "length (deleteChangePoint rows i) + 1 = length rows"
    by (simp add: del)
  show "take i (deleteChangePoint rows i) = take i rows"
    using assms(1) by (simp add: del)
  show "drop (Suc i) (deleteChangePoint rows i) = drop (i + 2) rows"
    using assms(1) by (simp add: del min_def)
  show "deleteChangePoint rows i ! i =
      (rows ! i)\<lparr>bs := None, isCP := Some False, cpLabel := None, cpRL := None,
         cpHOC := None, chainage := chainage (rows ! Suc i)\<rparr>"
    using assms(1) by (simp add: del nth_append r_def restoreFsRow_def)
qed

lemma deleteChangePoint_cases_examples:
  "1 < length cp_pushed_rows \<and> truthy (isCP (cp_pushed_rows ! 1)) \<and>
   Suc 1 < length cp_pushed_rows \<and> includes_str (row_id (cp_pushed_rows ! Suc 1)) ''-pushed'' \<and>
   length (deleteChangePoint cp_pushed_rows 1) + 1 = length cp_pushed_rows \<and>
   chainage (deleteChangePoint cp_pushed_rows 1 ! 1) = ''3.5 RHS'' \<and>
   isCP (deleteChangePoint cp_pushed_rows 1 ! 1) = Some False \<and>
   1 < length cp_plain_rows \<and> truthy (isCP (cp_plain_rows ! 1)) \<and>
   Suc 1 < length cp_plain_rows \<and> \<not> includes_str (row_id (cp_plain_rows ! Suc 1)) ''-pushed'' \<and>
   length (deleteChangePoint cp_plain_rows 1) = length cp_plain_rows \<and>
   chainage (deleteChangePoint cp_plain_rows 1 ! 1) = [] \<and>
   isCP (deleteChangePoint cp_plain_rows 1 ! 1) = Some False \<and>
   1 < length cp_last_rows \<and> truthy (isCP (cp_last_rows ! 1)) \<and> length cp_last_rows \<le> Suc 1 \<and>
   deleteChangePoint cp_last_rows 1 = cp_last_rows"
proof -
  have p1: "1 < length cp_pushed_rows" "truthy (isCP (cp_pushed_rows ! 1))"
    and p2: "Suc 1 < length cp_pushed_rows \<and> includes_str (row_id (cp_pushed_rows ! Suc 1)) ''-pushed''"
    by (simp_all add: cp_pushed_rows_def cp_last_rows_def blankRow_def truthy_def)
  have q1: "1 < length cp_plain_rows" "truthy (isCP (cp_plain_rows ! 1))"
    and q2: "Suc 1 < length cp_plain_rows \<and> \<not> includes_str (row_id (cp_plain_rows ! Suc 1)) ''-pushed''"
    by (simp_all add: cp_plain_rows_def cp_last_rows_def blankRow_def truthy_def)
  have l1: "1 < length cp_last_rows" "truthy (isCP (cp_last_rows ! 1))"
    and l2: "length cp_last_rows \<le> Suc 1"
    by (simp_all add: cp_last_rows_def blankRow_def truthy_def)
  note a = deleteChangePoint_cases [OF p1, THEN conjunct1, rule_format, OF p2]
  note b = deleteChangePoint_cases [OF q1, THEN conjunct2, THEN conjunct1, rule_format, OF q2]
  note c = deleteChangePoint_cases [OF l1, THEN conjunct2, THEN conjunct2, rule_format, OF l2]
  have a3: "chainage (deleteChangePoint cp_pushed_rows 1 ! 1) = ''3.5 RHS''"
    "isCP (deleteChangePoint cp_pushed_rows 1 ! 1) = Some False"
    using a by (simp_all add: cp_pushed_rows_def cp_last_rows_def blankRow_def)
  have b3: "length (deleteChangePoint cp_plain_rows 1) = length cp_plain_rows"
    "chainage (deleteChangePoint cp_plain_rows 1 ! 1) = []"
    "isCP (deleteChangePoint cp_plain_rows 1 ! 1) = Some False"
    using q1(1) b by simp_all
  show ?thesis
    using p1 p2 q1 q2 l1 l2 a a3 b3 c by (intro conjI) (elim conjE, assumption)+
qed

text \<open>
  Claim C7 (when no pushed row follows, because it is absent or is not the pushed companion,
  the change-point fields are still cleared and the chainage blanked, the row count unchanged).
  When the change point is the last row, \<open>deleteChangePoint\<close> returns its input: the row
  is still a change point, with its label and levels. The partial restore further down in the
  function is commented \<open>If no pushed point row, just remove CP info from the row\<close> and
  tests \<open>!pushedPointRow\<close>, which is this very case, but the guard
  \<open>pushedPointRowIndex >= rows.length\<close> ahead of it returns first, so that test can never
  hold.
\<close>

theorem cp_on_last_row_not_removed:
  "truthy (isCP (cp_last_rows ! 1)) \<and> length cp_last_rows = 2 \<and>
   deleteChangePoint cp_last_rows 1 = cp_last_rows \<and>
   isCP (deleteChangePoint cp_last_rows 1 ! 1) = Some True \<and>
   cpRL (deleteChangePoint cp_last_rows 1 ! 1) = Some 99.5 \<and>
   chainage (deleteChangePoint cp_last_rows 1 ! 1) = ''CP01''"
  by (simp add: deleteChangePoint_def cp_last_rows_def blankRow_def truthy_def)

section \<open>Parsing and formatting chainages\<close>

text \<open>A number below \<open>2 ^ k\<close> has at most \<open>k\<close> binary digits.\<close>

lemma bitLength_bound: "n < 2 ^ k \<Longrightarrow> bitLength n \<le> k"
proof (induction k arbitrary: n)
  case 0
  then show ?case by (simp add: bitLength.simps)
next
  case (Suc k)
  show ?case
  proof (cases "n = 0")
    case True
    then show ?thesis by (simp add: bitLength.simps)
  next
    case False
    have "n div 2 < 2 ^ k" using Suc.prems by simp
    then have "bitLength (n div 2) \<le> k" by (rule Suc.IH)
    with False show ?thesis by (subst bitLength.simps) simp
  qed
qed

text \<open>Up to \<open>MAX_SAFE_INTEGER\<close> in magnitude an integer is its own double.\<close>

lemma toDouble_exact:
  assumes "\<bar>n\<bar> \<le> MAX_SAFE_INTEGER"
  shows "toDouble n = n"
proof -
  have "nat \<bar>n\<bar> < 2 ^ 53"
    using assms by (simp add: MAX_SAFE_INTEGER_def nat_less_iff)
  then have "bitLength (nat \<bar>n\<bar>) \<le> 53" by (rule bitLength_bound)
  then show ?thesis by (simp add: toDouble_def Let_def)
qed

lemma digit_facts:
  assumes "c \<in> decimal_digits"
  shows "\<not> isWhiteSpace c" and "c \<noteq> CHR ''+''" and "c \<noteq> CHR ''-''" and "c \<noteq> CHR ''x''"
    and "c \<noteq> CHR ''X''" and "isRadixDigit 10 c"
    and "digitValue c = Some (of_char c - 48)" and "of_char c - 48 < (10 :: nat)"
    and "digit_char (of_char c - 48) = c" and "(of_char c - 48 = (0 :: nat)) = (c = CHR ''0'')"
proof -
  have cases: "c = CHR ''0'' \<or> c = CHR ''1'' \<or> c = CHR ''2'' \<or> c = CHR ''3'' \<or> c = CHR ''4'' \<or>
      c = CHR ''5'' \<or> c = CHR ''6'' \<or> c = CHR ''7'' \<or> c = CHR ''8'' \<or> c = CHR ''9''"
    using assms by (simp add: decimal_digits_def)
  show "\<not> isWhiteSpace c"
    using cases by (elim disjE) (simp_all add: isWhiteSpace_def)
  show "c \<noteq> CHR ''+''" "c \<noteq> CHR ''-''" "c \<noteq> CHR ''x''" "c \<noteq> CHR ''X''"
    using cases by (elim disjE; simp)+
  show dv: "digitValue c = Some (of_char c - 48)"
    using cases by (elim disjE) (simp_all add: digitValue_def)
  show lt: "of_char c - 48 < (10 :: nat)"
    using cases by (elim disjE) simp_all
  show "isRadixDigit 10 c"
    using lt by (simp add: isRadixDigit_def dv)
  show "digit_char (of_char c - 48) = c"
    using cases by (elim disjE) (simp_all add: digit_char_def)
  show "(of_char c - 48 = (0 :: nat)) = (c = CHR ''0'')"
    using cases by (elim disjE) simp_all
qed

lemma split_str_none: "sep \<notin> set s \<Longrightarrow> split_str sep s = [s]"
  by (induction s) auto

lemma split_str_one: "sep \<notin> set a \<Longrightarrow> split_str sep (a @ sep # b) = a # split_str sep b"
  by (induction a) auto

lemma split_str_two:
  "sep \<notin> set a \<Longrightarrow> sep \<notin> set b \<Longrightarrow> split_str sep (a @ sep # b) = [a, b]"
  by (simp add: split_str_one split_str_none)

lemma digits_second:
  assumes "set (c # cs) \<subseteq> decimal_digits"
  shows "cs = [] \<or> (\<exists>c2 cs2. cs = c2 # cs2 \<and> c2 \<noteq> CHR ''x'' \<and> c2 \<noteq> CHR ''X'')"
proof (cases cs)
  case Nil
  then show ?thesis by simp
next
  case (Cons c2 cs2)
  then have "c2 \<in> decimal_digits" using assms by simp
  then have "c2 \<noteq> CHR ''x''" "c2 \<noteq> CHR ''X''"
    by (rule digit_facts(4), rule digit_facts(5))
  with Cons show ?thesis by simp
qed

lemma digits_nohex:
  assumes "set (c # cs) \<subseteq> decimal_digits"
  shows "\<not> prefix ''0x'' (c # cs)" and "\<not> prefix ''0X'' (c # cs)"
  using digits_second [OF assms] by (elim disjE exE conjE; simp)+

lemma digits_takeWhile:
  assumes "set ds \<subseteq> decimal_digits"
  shows "takeWhile (isRadixDigit 10) ds = ds"
  unfolding takeWhile_eq_all_conv
proof
  fix x assume "x \<in> set ds"
  with assms have "x \<in> decimal_digits" by (rule subsetD)
  then show "isRadixDigit 10 x" by (rule digit_facts(6))
qed

lemma parseInt_digits:
  assumes "ds \<noteq> []" and "set ds \<subseteq> decimal_digits"
  shows "parseInt ds = Some (toDouble (int (digitsValue 10 ds)))"
proof -
  obtain c cs where ds: "ds = c # cs"
    using assms(1) by (cases ds) auto
  have sub: "set (c # cs) \<subseteq> decimal_digits" using assms(2) ds by simp
  then have c: "c \<in> decimal_digits" by simp
  have drop: "dropWhile isWhiteSpace ds = ds"
    using digit_facts(1) [OF c] ds by simp
  have sign: "hd ds \<noteq> CHR ''-''" "hd ds \<noteq> CHR ''+''"
    using digit_facts(2,3) [OF c] ds by simp_all
  have nohex: "\<not> prefix ''0x'' ds" "\<not> prefix ''0X'' ds"
    using digits_nohex [OF sub] ds by simp_all
  note all = digits_takeWhile [OF assms(2)]
  show ?thesis
    using assms(1) by (simp add: parseInt_def Let_def drop sign nohex all)
qed

lemma digitsValue_snoc:
  "digitsValue radix (ds @ [c]) =
     digitsValue radix ds * radix + (case digitValue c of None \<Rightarrow> 0 | Some v \<Rightarrow> v)"
  by (simp add: digitsValue_def)

lemma String_nat_small: "n < 10 \<Longrightarrow> String_nat n = [digit_char n]"
  by (subst String_nat.simps) simp

lemma String_nat_snoc:
  "0 < n \<Longrightarrow> v < 10 \<Longrightarrow> String_nat (n * 10 + v) = String_nat n @ [digit_char v]"
  by (subst String_nat.simps) simp

lemma String_nat_digitsValue:
  assumes "set ds \<subseteq> decimal_digits"
  shows "String_nat (digitsValue 10 ds) = stripZeros ds \<and>
         (digitsValue 10 ds = 0 \<longleftrightarrow> (\<forall>c\<in>set ds. c = CHR ''0''))"
  using assms
proof (induction ds rule: rev_induct)
  case Nil
  show ?case
    by (simp add: digitsValue_def stripZeros_def String_nat_small digit_char_def)
next
  case (snoc c ds)
  then have ih: "String_nat (digitsValue 10 ds) = stripZeros ds"
    and zero: "digitsValue 10 ds = 0 \<longleftrightarrow> (\<forall>c\<in>set ds. c = CHR ''0'')"
    by simp_all
  have "c \<in> decimal_digits" using snoc.prems by simp
  note dc = digit_facts(7-10) [OF this]
  define v :: nat where "v = of_char c - 48"
  have v: "v < 10" "digitValue c = Some v" "digit_char v = c" "v = 0 \<longleftrightarrow> c = CHR ''0''"
    unfolding v_def using dc by simp_all
  have val: "digitsValue 10 (ds @ [c]) = digitsValue 10 ds * 10 + v"
    by (simp add: digitsValue_snoc v(2))
  show ?case
  proof (cases "digitsValue 10 ds = 0")
    case True
    then have allz: "\<forall>c\<in>set ds. c = CHR ''0''" using zero by simp
    then have "dropWhile (\<lambda>c. c = CHR ''0'') ds = []" by simp
    then have "stripZeros (ds @ [c]) = [c]"
      by (simp add: stripZeros_def dropWhile_append)
    moreover have "String_nat (digitsValue 10 (ds @ [c])) = [c]"
      using True v by (simp add: val String_nat_small)
    moreover have "digitsValue 10 (ds @ [c]) = 0 \<longleftrightarrow> (\<forall>x\<in>set (ds @ [c]). x = CHR ''0'')"
      using True allz v(4) by (simp add: val)
    ultimately show ?thesis by simp
  next
    case False
    then have nz: "\<not> (\<forall>c\<in>set ds. c = CHR ''0'')" using zero by simp
    then have dw: "dropWhile (\<lambda>c. c = CHR ''0'') ds \<noteq> []"
      by (simp add: dropWhile_eq_Nil_conv)
    then have "stripZeros (ds @ [c]) = stripZeros ds @ [c]"
      using nz by (cases "dropWhile (\<lambda>c. c = CHR ''0'') ds")
         (simp_all add: stripZeros_def dropWhile_append)
    moreover have "String_nat (digitsValue 10 (ds @ [c])) = String_nat (digitsValue 10 ds) @ [c]"
      using False v by (simp add: val String_nat_snoc)
    moreover have "digitsValue 10 (ds @ [c]) \<noteq> 0" using False by (simp add: val)
    ultimately show ?thesis using ih nz by simp
  qed
qed

lemma digitsValue_bound:
  assumes "set ds \<subseteq> decimal_digits"
  shows "digitsValue 10 ds < 10 ^ length ds"
  using assms
proof (induction ds rule: rev_induct)
  case Nil
  show ?case by (simp add: digitsValue_def)
next
  case (snoc c ds)
  have "c \<in> decimal_digits" using snoc.prems by simp
  note dc = digit_facts(7,8) [OF this]
  define v :: nat where "v = of_char c - 48"
  have v: "v < 10" "digitValue c = Some v"
    unfolding v_def using dc by simp_all
  have "digitsValue 10 ds < 10 ^ length ds" using snoc by simp
  then have "digitsValue 10 ds * 10 + v < 10 ^ length ds * 10"
    using v(1) by arith
  then show ?case
    by (simp add: digitsValue_snoc v(2) mult.commute)
qed

lemma formatChainage_nonneg:
  assumes "m < 1000"
  shows "formatChainage (int k * 1000 + int m) =
     String_nat k @ ''+'' @ padStart 3 (CHR ''0'') (String_nat m)"
proof -
  have "(int k * 1000 + int m) div 1000 = int k" "(int k * 1000 + int m) mod 1000 = int m"
    using assms by simp_all
  then show ?thesis
    by (simp add: formatChainage_def js_rem_def String_int_def Let_def)
qed

lemma takeWhile_zeros:
  "takeWhile (\<lambda>c. c = x) xs = replicate (length (takeWhile (\<lambda>c. c = x) xs)) x"
  by (induction xs) simp_all

lemma padStart_stripZeros:
  assumes "ms \<noteq> []" and "length ms \<le> n"
  shows "padStart n (CHR ''0'') (stripZeros ms) = padStart n (CHR ''0'') ms"
proof -
  define tw where "tw = takeWhile (\<lambda>c. c = CHR ''0'') ms"
  define dw where "dw = dropWhile (\<lambda>c. c = CHR ''0'') ms"
  have ms: "ms = replicate (length tw) (CHR ''0'') @ dw"
    unfolding tw_def dw_def using takeWhile_zeros [of "CHR ''0''" ms] by simp
  have len: "length ms = length tw + length dw"
    unfolding tw_def dw_def
    by (metis length_append takeWhile_dropWhile_id)
  show ?thesis
  proof (cases dw)
    case Nil
    have strip: "stripZeros ms = ''0''"
      unfolding stripZeros_def dw_def [symmetric] Nil by simp
    have "0 < length ms" using assms(1) by simp
    then have tw: "0 < length tw" using len Nil by simp
    have "replicate (n - length ms) (CHR ''0'') @ ms =
        replicate (n - length tw) (CHR ''0'') @ replicate (length tw) (CHR ''0'')"
      using ms Nil len by simp
    then have "padStart n (CHR ''0'') ms =
        replicate (n - length tw) (CHR ''0'') @ replicate (length tw) (CHR ''0'')"
      by (simp only: padStart_def)
    also have "\<dots> = replicate n (CHR ''0'')"
      using assms(2) len Nil by (simp add: replicate_add [symmetric])
    also have "\<dots> = replicate (n - 1) (CHR ''0'') @ ''0''"
      using tw assms(2) len Nil by (cases n) (simp_all add: replicate_append_same)
    finally show ?thesis
      by (simp add: strip padStart_def)
  next
    case (Cons c cs)
    have strip: "stripZeros ms = dw"
      unfolding stripZeros_def dw_def [symmetric] by (simp add: Cons)
    have "replicate (n - length ms) (CHR ''0'') @ ms =
        replicate (n - length ms) (CHR ''0'') @ replicate (length tw) (CHR ''0'') @ dw"
      using ms by simp
    then have "padStart n (CHR ''0'') ms =
        replicate (n - length ms) (CHR ''0'') @ replicate (length tw) (CHR ''0'') @ dw"
      by (simp only: padStart_def)
    also have "\<dots> = replicate (n - length ms + length tw) (CHR ''0'') @ dw"
      by (simp add: replicate_add)
    also have "n - length ms + length tw = n - length dw"
      using assms(2) len by simp
    finally show ?thesis
      by (simp add: strip padStart_def)
  qed
qed

lemma parseChainage_two_parts:
  assumes "CHR ''+'' \<notin> set a" and "CHR ''+'' \<notin> set b"
  shows "parseChainage (a @ ''+'' @ b) =
     toDouble (toDouble (orZero (parseInt a) * 1000) + orZero (parseInt b))"
  using assms by (simp add: parseChainage_def split_str_two)

lemma parseChainage_two_parts_exact:
  assumes "CHR ''+'' \<notin> set a" and "CHR ''+'' \<notin> set b"
    and "\<bar>orZero (parseInt a)\<bar> * 1000 + \<bar>orZero (parseInt b)\<bar> \<le> MAX_SAFE_INTEGER"
  shows "parseChainage (a @ ''+'' @ b) = orZero (parseInt a) * 1000 + orZero (parseInt b)"
proof -
  have "\<bar>orZero (parseInt a) * 1000\<bar> \<le> MAX_SAFE_INTEGER"
    using assms(3) by (simp add: abs_mult)
  then have km: "toDouble (orZero (parseInt a) * 1000) = orZero (parseInt a) * 1000"
    by (rule toDouble_exact)
  have "\<bar>orZero (parseInt a) * 1000 + orZero (parseInt b)\<bar> \<le> MAX_SAFE_INTEGER"
    using assms(3) by (simp add: abs_mult)
  then have "toDouble (orZero (parseInt a) * 1000 + orZero (parseInt b)) =
      orZero (parseInt a) * 1000 + orZero (parseInt b)"
    by (rule toDouble_exact)
  then show ?thesis
    by (simp only: parseChainage_two_parts [OF assms(1,2)] km)
qed

lemma digits_no_plus:
  assumes "set ds \<subseteq> decimal_digits"
  shows "CHR ''+'' \<notin> set ds"
proof
  assume "CHR ''+'' \<in> set ds"
  with assms have "CHR ''+'' \<in> decimal_digits" by (rule subsetD)
  then show False using digit_facts(2) by blast
qed

lemma formatChainage_digits:
  assumes "set ks \<subseteq> decimal_digits"
    and "ms \<noteq> []" and "length ms \<le> 3" and "set ms \<subseteq> decimal_digits"
  shows "formatChainage (int (digitsValue 10 ks) * 1000 + int (digitsValue 10 ms)) =
     spec_normalize ks ms"
proof -
  have "digitsValue 10 ms < 10 ^ length ms"
    by (rule digitsValue_bound [OF assms(4)])
  also have "(10 :: nat) ^ length ms \<le> 10 ^ 3"
    using assms(3) by (intro power_increasing) simp_all
  finally have small: "digitsValue 10 ms < 1000" by simp
  have "formatChainage (int (digitsValue 10 ks) * 1000 + int (digitsValue 10 ms)) =
      String_nat (digitsValue 10 ks) @ ''+'' @ padStart 3 (CHR ''0'') (String_nat (digitsValue 10 ms))"
    by (rule formatChainage_nonneg [OF small])
  also have "\<dots> = stripZeros ks @ ''+'' @ padStart 3 (CHR ''0'') (stripZeros ms)"
    using String_nat_digitsValue [OF assms(1)] String_nat_digitsValue [OF assms(4)] by simp
  also have "\<dots> = stripZeros ks @ ''+'' @ padStart 3 (CHR ''0'') ms"
    by (simp only: padStart_stripZeros [OF assms(2,3)])
  finally show ?thesis
    by (simp only: spec_normalize_def)
qed

lemma round_trip:
  assumes "ks \<noteq> []" and "set ks \<subseteq> decimal_digits"
    and "ms \<noteq> []" and "length ms \<le> 3" and "set ms \<subseteq> decimal_digits"
    and "int (digitsValue 10 ks) * 1000 + int (digitsValue 10 ms) \<le> MAX_SAFE_INTEGER"
  shows "formatChainage (parseChainage (ks @ ''+'' @ ms)) = spec_normalize ks ms"
proof -
  have "\<bar>int (digitsValue 10 ks)\<bar> \<le> MAX_SAFE_INTEGER" "\<bar>int (digitsValue 10 ms)\<bar> \<le> MAX_SAFE_INTEGER"
    using assms(6) by simp_all
  then have km: "orZero (parseInt ks) = int (digitsValue 10 ks)"
    and m: "orZero (parseInt ms) = int (digitsValue 10 ms)"
    by (simp_all add: parseInt_digits [OF assms(1,2)] parseInt_digits [OF assms(3,5)] orZero_def
        toDouble_exact)
  have "parseChainage (ks @ ''+'' @ ms) = orZero (parseInt ks) * 1000 + orZero (parseInt ms)"
    using digits_no_plus [OF assms(2)] digits_no_plus [OF assms(5)]
  proof (rule parseChainage_two_parts_exact)
    show "\<bar>orZero (parseInt ks)\<bar> * 1000 + \<bar>orZero (parseInt ms)\<bar> \<le> MAX_SAFE_INTEGER"
      using assms(6) by (simp add: km m)
  qed
  then have parse: "parseChainage (ks @ ''+'' @ ms) =
      int (digitsValue 10 ks) * 1000 + int (digitsValue 10 ms)"
    by (simp only: km m)
  show ?thesis
    unfolding parse by (rule formatChainage_digits [OF assms(2,3,4,5)])
qed

lemma spec_normalize_canonical:
  assumes "length ms = 3" and "ks = ''0'' \<or> (ks \<noteq> [] \<and> hd ks \<noteq> CHR ''0'')"
  shows "spec_normalize ks ms = ks @ ''+'' @ ms"
proof -
  have "stripZeros ks = ks"
    using assms(2) by (cases ks) (auto simp: stripZeros_def)
  then show ?thesis
    using assms(1) by (simp add: spec_normalize_def padStart_def)
qed

text \<open>A part that is missing or that \<open>parseInt\<close> cannot read counts as 0, and the other part
  still counts.\<close>

lemma parseChainage_part_defaults:
  "parseChainage ''2+'' = 2000 \<and> parseChainage ''+005'' = 5 \<and> parseChainage ''x+5'' = 5"
  by (simp add: parseChainage_def parseInt_def orZero_def isWhiteSpace_def isRadixDigit_def
      digitValue_def digitsValue_def Let_def toDouble_exact MAX_SAFE_INTEGER_def)

text \<open>The doubles next to \<open>9007199254741001\<close>, which lies above \<open>MAX_SAFE_INTEGER\<close>.\<close>

lemma bitLength_km: "bitLength 9007199254741000 = 54"
  by (simp add: bitLength.simps)

lemma bitLength_sum: "bitLength 9007199254741001 = 54"
  by (simp add: bitLength.simps)

lemma toDouble_km: "toDouble 9007199254741000 = 9007199254741000"
  by (simp add: toDouble_def Let_def bitLength_km)

lemma toDouble_sum: "toDouble 9007199254741001 = 9007199254741000"
  by (simp add: toDouble_def Let_def bitLength_sum)

lemma digits_big: "set ''9007199254741'' \<subseteq> decimal_digits" "set ''001'' \<subseteq> decimal_digits"
  "set ''000'' \<subseteq> decimal_digits"
  by (simp_all add: decimal_digits_def)

lemma value_big: "int (digitsValue 10 ''9007199254741'') = 9007199254741"
  "int (digitsValue 10 ''001'') = 1" "int (digitsValue 10 ''000'') = 0"
  by (simp_all add: digitsValue_def digitValue_def)

lemma parseInt_big: "orZero (parseInt ''9007199254741'') = 9007199254741"
  "orZero (parseInt ''001'') = 1"
proof -
  have "toDouble 9007199254741 = 9007199254741" "toDouble 1 = 1"
    by (rule toDouble_exact, simp add: MAX_SAFE_INTEGER_def)+
  then show "orZero (parseInt ''9007199254741'') = 9007199254741" "orZero (parseInt ''001'') = 1"
    using parseInt_digits [OF _ digits_big(1)] parseInt_digits [OF _ digits_big(2)]
    by (simp_all add: value_big orZero_def)
qed

text \<open>
  Claim C10, as stated (the round trip holds for every well-formed chainage string), fails
  above \<open>MAX_SAFE_INTEGER\<close>. The string \<open>9007199254741+001\<close> is in normal form; its
  distance 9007199254741001 is not a double, the addition in \<open>parseChainage\<close> rounds it to
  9007199254741000, and formatting that gives \<open>9007199254741+000\<close>.
\<close>

theorem round_trip_fails_above_safe_integers:
  "parseChainage ''9007199254741+001'' = 9007199254741000 \<and>
   formatChainage (parseChainage ''9007199254741+001'') = ''9007199254741+000'' \<and>
   spec_normalize ''9007199254741'' ''001'' = ''9007199254741+001''"
proof -
  have "parseChainage (''9007199254741'' @ ''+'' @ ''001'') =
      toDouble (toDouble (orZero (parseInt ''9007199254741'') * 1000) + orZero (parseInt ''001''))"
    by (rule parseChainage_two_parts) (rule digits_no_plus, rule digits_big)+
  then have parse: "parseChainage ''9007199254741+001'' = 9007199254741000"
    by (simp add: parseInt_big toDouble_km toDouble_sum)
  have "formatChainage (int (digitsValue 10 ''9007199254741'') * 1000 + int (digitsValue 10 ''000'')) =
      spec_normalize ''9007199254741'' ''000''"
    by (rule formatChainage_digits [OF digits_big(1) _ _ digits_big(3)]) simp_all
  then have "formatChainage 9007199254741000 = spec_normalize ''9007199254741'' ''000''"
    by (simp add: value_big)
  then have fmt: "formatChainage (parseChainage ''9007199254741+001'') = ''9007199254741+000''"
    by (simp add: parse spec_normalize_def stripZeros_def padStart_def)
  have "spec_normalize ''9007199254741'' ''001'' = ''9007199254741+001''"
    by (simp add: spec_normalize_def stripZeros_def padStart_def)
  with parse fmt show ?thesis by simp
qed

text \<open>
  Claim C10, amended. For every chainage string made of a non-empty run of decimal digits, a
  plus sign and one to three decimal digits, whose distance (kilometres times 1000 plus metres)
  is at most \<open>MAX_SAFE_INTEGER\<close>, that is \<open>2 ^ 53 - 1\<close>, formatting the parsed distance gives
  the string in normal form (kilometres without leading zeros, metres padded to three digits);
  when the kilometres have no leading zero and the metres have three digits, this is the string
  itself. \<open>parseChainage\<close> is a total function with no failure case: it returns 0 when
  the string does not split into exactly two parts at the plus sign, and otherwise the
  kilometre part times 1000 plus the metre part, a part that is missing or that \<open>parseInt\<close>
  cannot read counting as 0; this sum is exact when 1000 times the magnitude of the kilometre
  part plus the magnitude of the metre part is at most \<open>MAX_SAFE_INTEGER\<close>.
\<close>

theorem chainage_round_trip:
  "(ks \<noteq> [] \<and> set ks \<subseteq> decimal_digits \<and> ms \<noteq> [] \<and> length ms \<le> 3 \<and> set ms \<subseteq> decimal_digits \<and>
    int (digitsValue 10 ks) * 1000 + int (digitsValue 10 ms) \<le> MAX_SAFE_INTEGER \<longrightarrow>
      formatChainage (parseChainage (ks @ ''+'' @ ms)) = spec_normalize ks ms) \<and>
   (ks \<noteq> [] \<and> set ks \<subseteq> decimal_digits \<and> (ks = ''0'' \<or> hd ks \<noteq> CHR ''0'') \<and>
    length ms = 3 \<and> set ms \<subseteq> decimal_digits \<and>
    int (digitsValue 10 ks) * 1000 + int (digitsValue 10 ms) \<le> MAX_SAFE_INTEGER \<longrightarrow>
      formatChainage (parseChainage (ks @ ''+'' @ ms)) = ks @ ''+'' @ ms) \<and>
   (length (split_str (CHR ''+'') s) \<noteq> 2 \<longrightarrow> parseChainage s = 0) \<and>
   (CHR ''+'' \<notin> set a \<and> CHR ''+'' \<notin> set b \<and>
    \<bar>orZero (parseInt a)\<bar> * 1000 + \<bar>orZero (parseInt b)\<bar> \<le> MAX_SAFE_INTEGER \<longrightarrow>
      parseChainage (a @ ''+'' @ b) = orZero (parseInt a) * 1000 + orZero (parseInt b))"
proof (intro conjI impI)
  assume "ks \<noteq> [] \<and> set ks \<subseteq> decimal_digits \<and> ms \<noteq> [] \<and> length ms \<le> 3 \<and> set ms \<subseteq> decimal_digits \<and>
    int (digitsValue 10 ks) * 1000 + int (digitsValue 10 ms) \<le> MAX_SAFE_INTEGER"
  then show "formatChainage (parseChainage (ks @ ''+'' @ ms)) = spec_normalize ks ms"
    by (intro round_trip) simp_all
next
  assume a: "ks \<noteq> [] \<and> set ks \<subseteq> decimal_digits \<and> (ks = ''0'' \<or> hd ks \<noteq> CHR ''0'') \<and>
    length ms = 3 \<and> set ms \<subseteq> decimal_digits \<and>
    int (digitsValue 10 ks) * 1000 + int (digitsValue 10 ms) \<le> MAX_SAFE_INTEGER"
  then have "ms \<noteq> []" "length ms \<le> 3" by auto
  with a have "formatChainage (parseChainage (ks @ ''+'' @ ms)) = spec_normalize ks ms"
    by (intro round_trip) simp_all
  also have "\<dots> = ks @ ''+'' @ ms"
    using a by (intro spec_normalize_canonical) auto
  finally show "formatChainage (parseChainage (ks @ ''+'' @ ms)) = ks @ ''+'' @ ms" .
next
  assume "length (split_str (CHR ''+'') s) \<noteq> 2"
  then show "parseChainage s = 0"
    by (simp add: parseChainage_def)
next
  assume "CHR ''+'' \<notin> set a \<and> CHR ''+'' \<notin> set b \<and>
    \<bar>orZero (parseInt a)\<bar> * 1000 + \<bar>orZero (parseInt b)\<bar> \<le> MAX_SAFE_INTEGER"
  then show "parseChainage (a @ ''+'' @ b) = orZero (parseInt a) * 1000 + orZero (parseInt b)"
    by (intro parseChainage_two_parts_exact) simp_all
qed

lemma sample_normal: "spec_normalize ''007'' ''05'' = ''7+005''"
  by (simp add: spec_normalize_def stripZeros_def padStart_def)

lemma sample_parts:
  "parseInt ''x'' = None" "parseInt ''5'' = Some 5"
  by (simp_all add: parseInt_def isWhiteSpace_def isRadixDigit_def digitValue_def digitsValue_def
      Let_def toDouble_exact MAX_SAFE_INTEGER_def)

theorem chainage_round_trip_witness:
  "formatChainage (parseChainage ''2+460'') = ''2+460'' \<and>
   formatChainage (parseChainage ''007+05'') = ''7+005'' \<and>
   length (split_str (CHR ''+'') ''1+2+3'') \<noteq> 2 \<and> parseChainage ''1+2+3'' = 0 \<and>
   length (split_str (CHR ''+'') ''2460'') \<noteq> 2 \<and> parseChainage ''2460'' = 0 \<and>
   parseInt ''x'' = None \<and> parseChainage ''x+5'' = 5"
proof -
  have a: "formatChainage (parseChainage (''2'' @ ''+'' @ ''460'')) = ''2'' @ ''+'' @ ''460''"
    by (rule chainage_round_trip [of "''2''" "''460''", THEN conjunct2, THEN conjunct1, rule_format])
       (simp add: decimal_digits_def digitsValue_def digitValue_def MAX_SAFE_INTEGER_def)
  have b: "formatChainage (parseChainage (''007'' @ ''+'' @ ''05'')) = spec_normalize ''007'' ''05''"
    by (rule chainage_round_trip [of "''007''" "''05''", THEN conjunct1, rule_format])
       (simp add: decimal_digits_def digitsValue_def digitValue_def MAX_SAFE_INTEGER_def)
  have c1: "length (split_str (CHR ''+'') ''1+2+3'') \<noteq> 2"
    and c2: "length (split_str (CHR ''+'') ''2460'') \<noteq> 2"
    by simp_all
  note c = chainage_round_trip [where s = "''1+2+3''", THEN conjunct2, THEN conjunct2,
      THEN conjunct1, rule_format, OF c1]
  note d = chainage_round_trip [where s = "''2460''", THEN conjunct2, THEN conjunct2,
      THEN conjunct1, rule_format, OF c2]
  have e: "parseChainage (''x'' @ ''+'' @ ''5'') =
      orZero (parseInt ''x'') * 1000 + orZero (parseInt ''5'')"
    by (rule chainage_round_trip [where a = "''x''" and b = "''5''", THEN conjunct2, THEN conjunct2,
          THEN conjunct2, rule_format])
       (simp add: sample_parts orZero_def MAX_SAFE_INTEGER_def)
  show ?thesis
    using a b c1 c c2 d e by (simp add: sample_normal sample_parts orZero_def)
qed

section \<open>Stations of the chainage generator\<close>

lemmas parse_defs = parseChainage_def parseInt_def orZero_def isWhiteSpace_def isRadixDigit_def
  digitValue_def digitsValue_def Let_def toDouble_exact MAX_SAFE_INTEGER_def

lemmas format_defs = formatChainage_def js_rem_def String_int_def String_nat.simps padStart_def
  digit_char_def Let_def

lemma parse_0_000: "parseChainage ''0+000'' = 0"
  by (simp add: parse_defs)

lemma parse_0_040: "parseChainage ''0+040'' = 40"
  by (simp add: parse_defs)

lemma stationLoop_stuck:
  assumes "stationLoop body toM interval m points = Some r"
  shows "\<not> (interval \<le> 0 \<and> m \<le> toM)"
proof (rule stationLoop.raw_induct
        [where P = "\<lambda>body toM interval m points r. \<not> (interval \<le> 0 \<and> m \<le> toM)", OF _ assms],
       goal_cases)
  case (1 f body toM interval m points y)
  show ?case
  proof
    assume a: "interval \<le> 0 \<and> m \<le> toM"
    with 1(2) have "f body toM interval (m + interval) (points @ body m) = Some y"
      by simp
    from 1(1) [OF this] a show False
      by simp
  qed
qed

lemma stationLoop_never:
  assumes "interval \<le> 0" and "m \<le> toM"
  shows "stationLoop body toM interval m points = None"
proof (cases "stationLoop body toM interval m points")
  case None
  then show ?thesis .
next
  case (Some r)
  with stationLoop_stuck [OF Some] assms show ?thesis by simp
qed

lemma station_count:
  fixes m toM interval :: int
  assumes "0 < interval" and "m \<le> toM"
  shows "nat ((toM - m) div interval + 1) = Suc (nat ((toM - (m + interval)) div interval + 1))"
proof -
  have "(toM - m) div interval = ((toM - (m + interval)) + interval) div interval"
    by (simp add: algebra_simps)
  also have "\<dots> = (toM - (m + interval)) div interval + 1"
    using assms(1) by (subst div_add_self2) simp_all
  finally have "(toM - (m + interval)) div interval = (toM - m) div interval - 1"
    by simp
  moreover have "0 \<le> (toM - m) div interval"
    using assms by (simp add: pos_imp_zdiv_nonneg_iff)
  ultimately show ?thesis by simp
qed

lemma station_count_zero:
  fixes m toM interval :: int
  assumes "0 < interval" and "\<not> m \<le> toM"
  shows "nat ((toM - m) div interval + 1) = 0"
proof -
  have "(toM - m) div interval < 0"
    using assms by (simp add: div_neg_pos_less0)
  then show ?thesis by simp
qed

lemma stationLoop_total:
  assumes "0 < interval"
  shows "stationLoop body toM interval m points =
     Some (points @ concat (map (\<lambda>k. body (m + int k * interval))
             [0..<nat ((toM - m) div interval + 1)]))"
proof (induction n \<equiv> "nat ((toM - m) div interval + 1)" arbitrary: m points)
  case 0
  then have "\<not> m \<le> toM"
    using station_count [OF assms, of m toM] by (cases "m \<le> toM") simp_all
  with 0 [symmetric] show ?case
    by (subst stationLoop.simps) simp
next
  case (Suc n)
  then have le: "m \<le> toM"
    using station_count_zero [OF assms, of m toM] by (cases "m \<le> toM") simp_all
  have n: "n = nat ((toM - (m + interval)) div interval + 1)"
    using Suc(2) station_count [OF assms le] by simp
  have shift: "map (\<lambda>k. body (m + int k * interval)) [0..<Suc n] =
      body m # map (\<lambda>k. body (m + interval + int k * interval)) [0..<n]"
    by (simp add: upt_conv_Cons map_Suc_upt [symmetric] algebra_simps del: upt_Suc)
  have "stationLoop body toM interval m points =
      stationLoop body toM interval (m + interval) (points @ body m)"
    using le by (subst stationLoop.simps) simp
  also have "\<dots> = Some ((points @ body m) @ concat (map (\<lambda>k. body (m + interval + int k * interval))
             [0..<n]))"
    using Suc(1) [OF n] n by simp
  also have "\<dots> = Some (points @ concat (map (\<lambda>k. body (m + int k * interval)) [0..<Suc n]))"
    by (simp only: shift concat.simps append_assoc)
  finally show ?case using Suc(2) by simp
qed

lemma fmt0: "formatChainage 0 = ''0+000''"
  by code_simp

lemma fmt20: "formatChainage 20 = ''0+020''"
  by code_simp

lemma fmt40: "formatChainage 40 = ''0+040''"
  by code_simp

lemma three_points:
  "map (\<lambda>p. (chainage_pt p, offset p)) (stationPoints numStr 3 None m) =
     [(formatChainage m, - 3.5), (formatChainage m, 0), (formatChainage m, 3.5)]"
  by (simp add: stationPoints_def patternOf_def Let_def)


lemma bitLength_two_53: "bitLength 9007199254740992 = 54" "bitLength 9007199254740993 = 54"
  by (simp_all add: bitLength.simps)

text \<open>Beyond \<open>MAX_SAFE_INTEGER\<close> the step of the loop is no longer exact: \<open>9007199254740+992\<close>
  parses to \<open>2 ^ 53\<close>, and adding 1 to that double gives the same double.\<close>

lemma step_rounds_beyond_safe_integers:
  "parseChainage ''9007199254740+992'' = 9007199254740992 \<and>
   MAX_SAFE_INTEGER < 9007199254740992 \<and>
   toDouble (9007199254740992 + 1) = 9007199254740992"
proof -
  have ds: "set ''9007199254740'' \<subseteq> decimal_digits" "set ''992'' \<subseteq> decimal_digits"
    by (simp_all add: decimal_digits_def)
  have "toDouble 9007199254740 = 9007199254740" "toDouble 992 = 992"
    by (rule toDouble_exact, simp add: MAX_SAFE_INTEGER_def)+
  then have parts: "orZero (parseInt ''9007199254740'') = 9007199254740"
    "orZero (parseInt ''992'') = 992"
    using parseInt_digits [OF _ ds(1)] parseInt_digits [OF _ ds(2)]
    by (simp_all add: digitsValue_def digitValue_def orZero_def)
  have km: "toDouble 9007199254740000 = 9007199254740000"
    by (rule toDouble_exact) (simp add: MAX_SAFE_INTEGER_def)
  have top: "toDouble 9007199254740992 = 9007199254740992"
    by (simp add: toDouble_def Let_def bitLength_two_53)
  have "parseChainage (''9007199254740'' @ ''+'' @ ''992'') =
      toDouble (toDouble (orZero (parseInt ''9007199254740'') * 1000) + orZero (parseInt ''992''))"
    by (rule parseChainage_two_parts) (rule digits_no_plus, rule ds)+
  then have "parseChainage ''9007199254740+992'' = 9007199254740992"
    by (simp add: parts km top)
  moreover have "toDouble (9007199254740992 + 1) = 9007199254740992"
    by (simp add: toDouble_def Let_def bitLength_two_53)
  ultimately show ?thesis
    by (simp add: MAX_SAFE_INTEGER_def)
qed

text \<open>
  Claim C9, as stated (the generator terminates for every interval), fails at interval 0: from
  \<open>0+000\<close> to \<open>0+040\<close> the loop variable stays at 0 and the loop never ends.
\<close>

theorem zero_interval_never_returns:
  "parseChainage ''0+000'' = 0 \<and> parseChainage ''0+040'' = 40 \<and>
   generateChainagePoints numStr_sample ''0+000'' ''0+040'' 3 0 None = None"
proof -
  have "generateChainagePoints numStr_sample ''0+000'' ''0+040'' 3 0 None = None"
    unfolding generateChainagePoints_def Let_def parse_0_000 parse_0_040
    by (rule stationLoop_never) simp_all
  then show ?thesis
    by (simp add: parse_0_000 parse_0_040)
qed

text \<open>
  Claim C9, amended. Let the interval be a positive whole number, let the distance parsed from
  \<open>fromChainage\<close> be at most \<open>MAX_SAFE_INTEGER\<close> in magnitude, and let the distance parsed
  from \<open>toChainage\<close> plus the interval be at most \<open>MAX_SAFE_INTEGER\<close>. Then, for every
  points-per-station count (and pattern), \<open>generateChainagePoints\<close> terminates, and its
  result is the points of the stations at the distances \<open>fromM + k * interval\<close> for
  \<open>k = 0, 1, ...\<close> below the station count, in this order. Each of these distances is at
  most \<open>toM\<close>, and the next one on the grid is beyond \<open>toM\<close>: a boundary off the grid
  is skipped. Every value the loop variable takes, the one that ends the loop included, is a
  double, so that no step of the loop is rounded.
\<close>

theorem generateChainagePoints_stations:
  assumes "0 < interval"
    and "\<bar>parseChainage fromS\<bar> \<le> MAX_SAFE_INTEGER"
    and "parseChainage toS + interval \<le> MAX_SAFE_INTEGER"
  shows "generateChainagePoints numStr fromS toS points interval pat =
           Some (concat (map (\<lambda>k. stationPoints numStr points pat (parseChainage fromS + int k * interval))
                   [0..<nat ((parseChainage toS - parseChainage fromS) div interval + 1)])) \<and>
         (\<forall>k < nat ((parseChainage toS - parseChainage fromS) div interval + 1).
            parseChainage fromS + int k * interval \<le> parseChainage toS) \<and>
         parseChainage toS <
           parseChainage fromS + int (nat ((parseChainage toS - parseChainage fromS) div interval + 1)) * interval \<and>
         (\<forall>k \<le> nat ((parseChainage toS - parseChainage fromS) div interval + 1).
            toDouble (parseChainage fromS + int k * interval) = parseChainage fromS + int k * interval)"
proof (intro conjI allI impI)
  show "generateChainagePoints numStr fromS toS points interval pat =
           Some (concat (map (\<lambda>k. stationPoints numStr points pat (parseChainage fromS + int k * interval))
                   [0..<nat ((parseChainage toS - parseChainage fromS) div interval + 1)]))"
    by (simp add: generateChainagePoints_def Let_def stationLoop_total [OF assms(1)])
next
  fix k
  assume k: "k < nat ((parseChainage toS - parseChainage fromS) div interval + 1)"
  define q where "q = (parseChainage toS - parseChainage fromS) div interval"
  have "int k \<le> q" using k by (simp add: q_def)
  then have "int k * interval \<le> q * interval"
    using assms(1) by (simp add: mult_right_mono)
  also have "q * interval \<le> parseChainage toS - parseChainage fromS"
    unfolding q_def using assms(1)
    by (metis div_mult_mod_eq le_add_same_cancel1 pos_mod_sign)
  finally show "parseChainage fromS + int k * interval \<le> parseChainage toS"
    by simp
next
  define t where "t = parseChainage toS - parseChainage fromS"
  define q where "q = t div interval"
  have bound: "t < (q + 1) * interval"
  proof -
    have "t = q * interval + t mod interval"
      by (simp add: q_def)
    moreover have "t mod interval < interval"
      using assms(1) by simp
    ultimately show ?thesis
      by (simp add: algebra_simps)
  qed
  show "parseChainage toS <
      parseChainage fromS + int (nat ((parseChainage toS - parseChainage fromS) div interval + 1)) * interval"
  proof (cases "0 \<le> q + 1")
    case True
    then have "int (nat (q + 1)) = q + 1" by simp
    with bound show ?thesis
      unfolding q_def t_def by simp
  next
    case False
    then have "q + 1 < 0" by simp
    then have "(q + 1) * interval < 0"
      using assms(1) by (simp add: mult_neg_pos)
    with bound have "t < 0" by simp
    moreover have "nat (q + 1) = 0" using False by simp
    ultimately show ?thesis
      unfolding q_def t_def by simp
  qed
next
  fix k
  assume k: "k \<le> nat ((parseChainage toS - parseChainage fromS) div interval + 1)"
  define q where "q = (parseChainage toS - parseChainage fromS) div interval"
  have step: "0 \<le> int k * interval"
    using assms(1) by simp
  have "parseChainage fromS + int k * interval \<le> MAX_SAFE_INTEGER"
  proof (cases "0 \<le> q + 1")
    case True
    then have "int k \<le> q + 1" using k by (simp add: q_def)
    then have "int k * interval \<le> (q + 1) * interval"
      using assms(1) by (simp add: mult_right_mono)
    moreover have "q * interval \<le> parseChainage toS - parseChainage fromS"
      unfolding q_def using assms(1)
      by (metis div_mult_mod_eq le_add_same_cancel1 pos_mod_sign)
    ultimately have "parseChainage fromS + int k * interval \<le> parseChainage toS + interval"
      by (simp add: algebra_simps)
    with assms(3) show ?thesis by simp
  next
    case False
    then have "k = 0" using k by (simp add: q_def)
    with assms(2) show ?thesis by simp
  qed
  with assms(2) step have "\<bar>parseChainage fromS + int k * interval\<bar> \<le> MAX_SAFE_INTEGER"
    by simp
  then show "toDouble (parseChainage fromS + int k * interval) = parseChainage fromS + int k * interval"
    by (rule toDouble_exact)
qed

text \<open>The example of the claim: from \<open>0+000\<close> to \<open>0+040\<close> at interval 20 with three points
  per station, three stations with three points each, at the offsets -3.5, 0 and 3.5.\<close>

theorem generateChainagePoints_stations_witness:
  "(0 :: int) < 20 \<and> \<bar>parseChainage ''0+000''\<bar> \<le> MAX_SAFE_INTEGER \<and>
   parseChainage ''0+040'' + 20 \<le> MAX_SAFE_INTEGER \<and>
   map (\<lambda>p. (chainage_pt p, offset p))
     (the (generateChainagePoints numStr_sample ''0+000'' ''0+040'' 3 20 None)) =
     [(''0+000'', - 3.5), (''0+000'', 0), (''0+000'', 3.5),
      (''0+020'', - 3.5), (''0+020'', 0), (''0+020'', 3.5),
      (''0+040'', - 3.5), (''0+040'', 0), (''0+040'', 3.5)]"
proof -
  have pos: "(0 :: int) < 20" by simp
  have lo: "\<bar>parseChainage ''0+000''\<bar> \<le> MAX_SAFE_INTEGER"
    and hi: "parseChainage ''0+040'' + 20 \<le> MAX_SAFE_INTEGER"
    by (simp_all add: parse_0_000 parse_0_040 MAX_SAFE_INTEGER_def)
  have count: "nat (((40 :: int) - 0) div 20 + 1) = 3"
    by simp
  have upt: "[0..<3] = [0, 1, 2 :: nat]"
    by (simp add: upt_rec numeral_3_eq_3)
  have "generateChainagePoints numStr_sample ''0+000'' ''0+040'' 3 20 None =
      Some (concat (map (\<lambda>k. stationPoints numStr_sample 3 None (0 + int k * 20)) [0, 1, 2]))"
    using generateChainagePoints_stations [OF pos lo hi, of numStr_sample 3 None, THEN conjunct1]
    by (simp only: parse_0_000 parse_0_040 count upt)
  then have "map (\<lambda>p. (chainage_pt p, offset p))
     (the (generateChainagePoints numStr_sample ''0+000'' ''0+040'' 3 20 None)) =
     map (\<lambda>p. (chainage_pt p, offset p)) (stationPoints numStr_sample 3 None 0) @
     map (\<lambda>p. (chainage_pt p, offset p)) (stationPoints numStr_sample 3 None 20) @
     map (\<lambda>p. (chainage_pt p, offset p)) (stationPoints numStr_sample 3 None 40)"
    by simp
  with lo hi show ?thesis
    by (simp only: three_points fmt0 fmt20 fmt40) simp
qed

section \<open>Re-applying a point pattern\<close>

lemma nextMiddle_map_length:
  "length (fst (nextMiddle_map pts k xs)) = length xs"
  by (induction xs arbitrary: k) simp_all

lemma nextMiddle_map_index:
  "snd (nextMiddle_map pts k xs) =
     (if length pts \<le> k then k
      else min (k + length (filter (\<lambda>r. \<not> truthy (isCP r)) xs)) (length pts))"
  by (induction xs arbitrary: k) auto

lemma nextMiddle_map_nth:
  "j < length xs \<Longrightarrow>
   fst (nextMiddle_map pts k xs) ! j =
     (if truthy (isCP (xs ! j)) then xs ! j
      else if k + length (filter (\<lambda>r. \<not> truthy (isCP r)) (take j xs)) < length pts then
        (xs ! j)\<lparr>chainage := chainage (pts ! (k + length (filter (\<lambda>r. \<not> truthy (isCP r)) (take j xs)))),
                 chainageType := chainageType (pts ! (k + length (filter (\<lambda>r. \<not> truthy (isCP r)) (take j xs))))\<rparr>
      else xs ! j)"
proof (induction xs arbitrary: k j)
  case Nil
  then show ?case by simp
next
  case (Cons r rs)
  show ?case
  proof (cases j)
    case 0
    then show ?thesis by simp
  next
    case (Suc j')
    then have j': "j' < length rs" using Cons.prems by simp
    show ?thesis
      using Cons.IH [OF j'] Suc by simp
  qed
qed

lemma nextMiddle_map_closing:
  "\<forall>r\<in>set xs. \<not> truthy (isClosingBM r) \<Longrightarrow>
   \<forall>r\<in>set (fst (nextMiddle_map pts k xs)). \<not> truthy (isClosingBM r)"
  by (induction xs arbitrary: k) simp_all

lemma find_filter:
  "(case find P xs of None \<Rightarrow> [] | Some c \<Rightarrow> [c]) = take 1 (filter P xs)"
  by (induction xs) simp_all

lemma generateChainagePoints_total:
  assumes "0 < interval"
  shows "\<exists>points. generateChainagePoints numStr fromS toS n interval pat = Some points"
  by (simp add: generateChainagePoints_def Let_def stationLoop_total [OF assms])

lemma find_not_first: "\<not> P x \<Longrightarrow> find P (x # xs) = find P xs"
  by simp

lemma filter_id: "\<forall>x\<in>set xs. P x \<Longrightarrow> filter P xs = xs"
  by (induction xs) simp_all

lemma drop_min: "drop (min c (length xs)) xs = drop c xs"
  by (cases "c \<le> length xs") (simp_all add: min_def)

lemma take1_filter:
  "length (filter P xs) \<le> 1 \<Longrightarrow> take 1 (filter P xs) = filter P xs"
  by simp

text \<open>
  Claim C8. Let the pattern text hold at least one label, let the chainage interval of the
  project be positive (so that the table generation terminates), and let the rows of the
  project be the benchmark row \<open>bmRow\<close>, which is no closing row, followed by \<open>rest\<close>.
  Write \<open>mid\<close> for the rows of \<open>rest\<close> that are no closing rows. Then
  \<open>handleApplyPattern\<close> stores a project whose rows are: \<open>bmRow\<close>, untouched; then one
  row \<open>mid' ! j\<close> for every row \<open>mid ! j\<close>, in the same order, with the same id and the
  same \<open>bs\<close>, \<open>is\<close>, \<open>fs\<close> and \<open>d\<close>, where a change-point row is unchanged, an
  ordinary row takes chainage label and station type of the generated point whose index is
  the number of ordinary rows before it, and an ordinary row beyond the generated points is
  unchanged; then a blank row for every generated point left over; then the closing row of
  \<open>rest\<close>, if there is one. The generated points are those of the chainage generator for the
  new pattern. With at most one closing row in \<open>rest\<close>, no row is dropped.
\<close>

theorem handleApplyPattern_preserves:
  fixes project :: Project
  assumes pattern: "parsePattern patternText \<noteq> []"
    and interval: "0 < chainageInterval project"
    and rows: "rows_pj project = bmRow # rest"
    and bm: "\<not> truthy (isClosingBM bmRow)"
    and mid: "mid = filter (\<lambda>r. \<not> truthy (isClosingBM r)) rest"
  shows "\<exists>points (pts :: Row list) mid'.
      generateChainagePoints numStr (fromChainage project) (toChainage project)
        (pointsPerChainage_pj project) (chainageInterval project)
        (Some (parsePattern patternText)) = Some points \<and>
      length pts = length points \<and>
      (\<forall>i<length points. chainage (pts ! i) = displayName (points ! i) \<and>
                          chainageType (pts ! i) = chainageType_pt (points ! i)) \<and>
      handleApplyPattern numStr clock project patternText =
        Some (project\<lparr>pointPattern_pj := Some (parsePattern patternText),
                rows_pj := bmRow # mid' @
                  map (\<lambda>p. blankRow (row_id p) (chainage p) (chainageType p))
                    (drop (length (filter (\<lambda>r. \<not> truthy (isCP r)) mid)) pts) @
                  take 1 (filter (\<lambda>r. truthy (isClosingBM r)) rest)\<rparr>) \<and>
      (length (filter (\<lambda>r. truthy (isClosingBM r)) rest) \<le> 1 \<longrightarrow>
         take 1 (filter (\<lambda>r. truthy (isClosingBM r)) rest) =
           filter (\<lambda>r. truthy (isClosingBM r)) rest) \<and>
      length mid' = length mid \<and>
      (\<forall>j<length mid.
         row_id (mid' ! j) = row_id (mid ! j) \<and> bs (mid' ! j) = bs (mid ! j) \<and>
         row_is (mid' ! j) = row_is (mid ! j) \<and> fs (mid' ! j) = fs (mid ! j) \<and>
         d (mid' ! j) = d (mid ! j) \<and>
         mid' ! j =
           (if truthy (isCP (mid ! j)) then mid ! j
            else if length (filter (\<lambda>r. \<not> truthy (isCP r)) (take j mid)) < length pts then
              (mid ! j)\<lparr>chainage :=
                           chainage (pts ! length (filter (\<lambda>r. \<not> truthy (isCP r)) (take j mid))),
                        chainageType :=
                           chainageType (pts ! length (filter (\<lambda>r. \<not> truthy (isCP r)) (take j mid)))\<rparr>
            else mid ! j))"
proof -
  define parsed where "parsed = parsePattern patternText"
  obtain points where gen: "generateChainagePoints numStr (fromChainage project) (toChainage project)
        (pointsPerChainage_pj project) (chainageInterval project) (Some parsed) = Some points"
    using generateChainagePoints_total [OF interval] by blast
  define pts where "pts = map (\<lambda>(index, point).
      blankRow (''row-'' @ String_nat (clock (Suc index)) @ ''-'' @ String_nat index)
        (displayName point) (chainageType_pt point)) (enumerate 0 points)"
  define reg where "reg = blankRow (''row-bm-'' @ String_nat (clock 0)) [] None # pts"
  define mid' where "mid' = fst (nextMiddle_map pts 0 mid)"
  define appended where "appended = map (\<lambda>p. blankRow (row_id p) (chainage p) (chainageType p))
      (drop (snd (nextMiddle_map pts 0 mid)) pts)"
  have gtr: "generateTableRows numStr clock (project\<lparr>pointPattern_pj := Some parsed\<rparr>) = Some reg"
    by (simp add: generateTableRows_def gen reg_def pts_def)
  have len_pts: "length pts = length points"
    by (simp add: pts_def)
  have labels: "chainage (pts ! i) = displayName (points ! i) \<and>
      chainageType (pts ! i) = chainageType_pt (points ! i)" if "i < length points" for i
    using that by (simp add: pts_def nth_enumerate_eq blankRow_def)
  have idx: "drop (snd (nextMiddle_map pts 0 mid)) pts =
      drop (length (filter (\<lambda>r. \<not> truthy (isCP r)) mid)) pts"
    by (cases "pts = []") (simp_all add: nextMiddle_map_index drop_min)
  have mid_open: "\<forall>r\<in>set mid. \<not> truthy (isClosingBM r)"
    by (simp add: mid)
  have "\<forall>r\<in>set (bmRow # mid' @ appended). \<not> truthy (isClosingBM r)"
    using bm nextMiddle_map_closing [OF mid_open, of pts 0]
    by (auto simp: mid'_def appended_def blankRow_def truthy_def)
  then have keep: "filter (\<lambda>r. \<not> truthy (isClosingBM r)) (bmRow # mid' @ appended) =
      bmRow # mid' @ appended"
    by (rule filter_id)
  have closing: "find (\<lambda>r. truthy (isClosingBM r)) (bmRow # rest) =
      find (\<lambda>r. truthy (isClosingBM r)) rest"
    using bm by simp
  have new_rows: "(case find (\<lambda>r. truthy (isClosingBM r)) rest of
        None \<Rightarrow> bmRow # mid' @ appended
      | Some c \<Rightarrow> filter (\<lambda>r. \<not> truthy (isClosingBM r)) (bmRow # mid' @ appended) @ [c]) =
      bmRow # mid' @ appended @ take 1 (filter (\<lambda>r. truthy (isClosingBM r)) rest)"
    unfolding keep find_filter [symmetric]
    by (cases "find (\<lambda>r. truthy (isClosingBM r)) rest") simp_all
  have "handleApplyPattern numStr clock project patternText =
      Some (project\<lparr>pointPattern_pj := Some parsed,
              rows_pj := (case find (\<lambda>r. truthy (isClosingBM r)) rest of
                 None \<Rightarrow> bmRow # mid' @ appended
               | Some c \<Rightarrow> filter (\<lambda>r. \<not> truthy (isClosingBM r)) (bmRow # mid' @ appended) @ [c])\<rparr>)"
    using pattern
    by (cases "find (\<lambda>r. truthy (isClosingBM r)) rest")
       (simp_all add: handleApplyPattern_def Let_def parsed_def [symmetric] gtr rows closing
          reg_def mid mid'_def appended_def del: find.simps)
  then have "handleApplyPattern numStr clock project patternText =
      Some (project\<lparr>pointPattern_pj := Some parsed,
              rows_pj := bmRow # mid' @ appended @
                take 1 (filter (\<lambda>r. truthy (isClosingBM r)) rest)\<rparr>)"
    by (simp only: new_rows)
  then have result: "handleApplyPattern numStr clock project patternText =
      Some (project\<lparr>pointPattern_pj := Some parsed,
              rows_pj := bmRow # mid' @
                map (\<lambda>p. blankRow (row_id p) (chainage p) (chainageType p))
                  (drop (length (filter (\<lambda>r. \<not> truthy (isCP r)) mid)) pts) @
                take 1 (filter (\<lambda>r. truthy (isClosingBM r)) rest)\<rparr>)"
    by (simp only: appended_def idx)
  have len_mid: "length mid' = length mid"
    by (simp add: mid'_def nextMiddle_map_length)
  have row: "mid' ! j =
           (if truthy (isCP (mid ! j)) then mid ! j
            else if length (filter (\<lambda>r. \<not> truthy (isCP r)) (take j mid)) < length pts then
              (mid ! j)\<lparr>chainage :=
                           chainage (pts ! length (filter (\<lambda>r. \<not> truthy (isCP r)) (take j mid))),
                        chainageType :=
                           chainageType (pts ! length (filter (\<lambda>r. \<not> truthy (isCP r)) (take j mid)))\<rparr>
            else mid ! j)" if "j < length mid" for j
    using nextMiddle_map_nth [OF that, of pts 0] by (simp add: mid'_def)
  have readings: "row_id (mid' ! j) = row_id (mid ! j) \<and> bs (mid' ! j) = bs (mid ! j) \<and>
         row_is (mid' ! j) = row_is (mid ! j) \<and> fs (mid' ! j) = fs (mid ! j) \<and>
         d (mid' ! j) = d (mid ! j)" if "j < length mid" for j
    by (simp add: row [OF that])
  have gen': "generateChainagePoints numStr (fromChainage project) (toChainage project)
        (pointsPerChainage_pj project) (chainageInterval project)
        (Some (parsePattern patternText)) = Some points"
    using gen by (simp only: parsed_def)
  have labels': "\<forall>i<length points. chainage (pts ! i) = displayName (points ! i) \<and>
                          chainageType (pts ! i) = chainageType_pt (points ! i)"
    using labels by blast
  have result': "handleApplyPattern numStr clock project patternText =
        Some (project\<lparr>pointPattern_pj := Some (parsePattern patternText),
                rows_pj := bmRow # mid' @
                  map (\<lambda>p. blankRow (row_id p) (chainage p) (chainageType p))
                    (drop (length (filter (\<lambda>r. \<not> truthy (isCP r)) mid)) pts) @
                  take 1 (filter (\<lambda>r. truthy (isClosingBM r)) rest)\<rparr>)"
    using result by (simp only: parsed_def)
  have single: "length (filter (\<lambda>r. truthy (isClosingBM r)) rest) \<le> 1 \<longrightarrow>
         take 1 (filter (\<lambda>r. truthy (isClosingBM r)) rest) =
           filter (\<lambda>r. truthy (isClosingBM r)) rest"
    by simp
  have rows': "\<forall>j<length mid.
         row_id (mid' ! j) = row_id (mid ! j) \<and> bs (mid' ! j) = bs (mid ! j) \<and>
         row_is (mid' ! j) = row_is (mid ! j) \<and> fs (mid' ! j) = fs (mid ! j) \<and>
         d (mid' ! j) = d (mid ! j) \<and>
         mid' ! j =
           (if truthy (isCP (mid ! j)) then mid ! j
            else if length (filter (\<lambda>r. \<not> truthy (isCP r)) (take j mid)) < length pts then
              (mid ! j)\<lparr>chainage :=
                           chainage (pts ! length (filter (\<lambda>r. \<not> truthy (isCP r)) (take j mid))),
                        chainageType :=
                           chainageType (pts ! length (filter (\<lambda>r. \<not> truthy (isCP r)) (take j mid)))\<rparr>
            else mid ! j)"
    using readings row by blast
  from gen' len_pts labels' result' single len_mid rows' show ?thesis
    by blast
qed

lemma sample_pattern: "parsePattern ''LHS, CL'' = [''LHS'', ''CL'']"
  by code_simp

lemma sample_mid:
  "filter (\<lambda>r. \<not> truthy (isClosingBM r)) sample_rest = take 3 sample_rest"
  "filter (\<lambda>r. truthy (isClosingBM r)) sample_rest = [closing_example]"
  by (simp_all add: sample_rest_def closing_example_def blankRow_def truthy_def)

theorem handleApplyPattern_preserves_witness:
  "parsePattern ''LHS, CL'' \<noteq> [] \<and> 0 < chainageInterval sample_project \<and>
   rows_pj sample_project = sample_bmRow # sample_rest \<and> \<not> truthy (isClosingBM sample_bmRow) \<and>
   (\<exists>p'. handleApplyPattern numStr_sample sample_clock sample_project ''LHS, CL'' = Some p' \<and>
      hd (rows_pj p') = sample_bmRow \<and> row_is (rows_pj p' ! 1) = Some 1 \<and>
      rows_pj p' ! 2 = sample_rest ! 1 \<and> fs (rows_pj p' ! 3) = Some 2 \<and>
      last (rows_pj p') = closing_example)"
proof -
  have h1: "parsePattern ''LHS, CL'' \<noteq> []"
    by (simp add: sample_pattern)
  have h2: "0 < chainageInterval sample_project"
    and h3: "rows_pj sample_project = sample_bmRow # sample_rest"
    by (simp_all add: sample_project_def)
  have h4: "\<not> truthy (isClosingBM sample_bmRow)"
    by (simp add: sample_bmRow_def blankRow_def truthy_def)
  define mid where "mid = take 3 sample_rest"
  have h5: "mid = filter (\<lambda>r. \<not> truthy (isClosingBM r)) sample_rest"
    by (simp only: mid_def sample_mid)
  from handleApplyPattern_preserves [OF h1 h2 h3 h4 h5, of numStr_sample sample_clock]
  obtain points and pts :: "Row list" and mid' where
    res: "handleApplyPattern numStr_sample sample_clock sample_project ''LHS, CL'' =
        Some (sample_project\<lparr>pointPattern_pj := Some (parsePattern ''LHS, CL''),
                rows_pj := sample_bmRow # mid' @
                  map (\<lambda>p. blankRow (row_id p) (chainage p) (chainageType p))
                    (drop (length (filter (\<lambda>r. \<not> truthy (isCP r)) mid)) pts) @
                  take 1 (filter (\<lambda>r. truthy (isClosingBM r)) sample_rest)\<rparr>)"
    and len: "length mid' = length mid"
    and rows: "\<forall>j<length mid.
         row_id (mid' ! j) = row_id (mid ! j) \<and> bs (mid' ! j) = bs (mid ! j) \<and>
         row_is (mid' ! j) = row_is (mid ! j) \<and> fs (mid' ! j) = fs (mid ! j) \<and>
         d (mid' ! j) = d (mid ! j) \<and>
         mid' ! j =
           (if truthy (isCP (mid ! j)) then mid ! j
            else if length (filter (\<lambda>r. \<not> truthy (isCP r)) (take j mid)) < length pts then
              (mid ! j)\<lparr>chainage :=
                           chainage (pts ! length (filter (\<lambda>r. \<not> truthy (isCP r)) (take j mid))),
                        chainageType :=
                           chainageType (pts ! length (filter (\<lambda>r. \<not> truthy (isCP r)) (take j mid)))\<rparr>
            else mid ! j)"
    by blast
  have mid_facts: "length mid = 3" "row_is (mid ! 0) = Some 1" "truthy (isCP (mid ! 1))"
    "mid ! 1 = sample_rest ! 1" "fs (mid ! 2) = Some 2"
    by (simp_all add: mid_def sample_rest_def blankRow_def truthy_def)
  have len3: "length mid' = 3"
    using len by (simp only: mid_facts)
  have r0: "row_is (mid' ! 0) = Some 1"
    using rows [rule_format, of 0] mid_facts by simp
  have r1: "mid' ! 1 = sample_rest ! 1"
    using rows [rule_format, of 1] mid_facts by simp
  have r2: "fs (mid' ! 2) = Some 2"
    using rows [rule_format, of 2] mid_facts by simp
  define p' where "p' = sample_project\<lparr>pointPattern_pj := Some (parsePattern ''LHS, CL''),
                rows_pj := sample_bmRow # mid' @
                  map (\<lambda>p. blankRow (row_id p) (chainage p) (chainageType p))
                    (drop (length (filter (\<lambda>r. \<not> truthy (isCP r)) mid)) pts) @
                  take 1 (filter (\<lambda>r. truthy (isClosingBM r)) sample_rest)\<rparr>"
  have "handleApplyPattern numStr_sample sample_clock sample_project ''LHS, CL'' = Some p'"
    using res by (simp only: p'_def)
  moreover have "hd (rows_pj p') = sample_bmRow"
    by (simp add: p'_def)
  moreover have "row_is (rows_pj p' ! 1) = Some 1" "rows_pj p' ! 2 = sample_rest ! 1"
    "fs (rows_pj p' ! 3) = Some 2"
    using r0 r1 r2 len3 by (simp_all add: p'_def nth_append numeral_2_eq_2 numeral_3_eq_3)
  moreover have "last (rows_pj p') = closing_example"
    by (simp add: p'_def sample_mid)
  ultimately have "\<exists>p'. handleApplyPattern numStr_sample sample_clock sample_project ''LHS, CL'' = Some p' \<and>
      hd (rows_pj p') = sample_bmRow \<and> row_is (rows_pj p' ! 1) = Some 1 \<and>
      rows_pj p' ! 2 = sample_rest ! 1 \<and> fs (rows_pj p' ! 3) = Some 2 \<and>
      last (rows_pj p') = closing_example"
    by blast
  with h1 h2 h3 h4 show ?thesis by blast
qed

end
